theory Spec2Isabelle
  imports Main "HOL-Library.Word"
begin

section \<open>Errors, requests and responses\<close>

text \<open>
  Go errors as values. \<open>NotFound\<close> is the API status error a lookup returns for an absent
  object, \<open>Other\<close> any other error (transport, authorisation, conflict, entropy), both with
  their message. \<open>Wrap p e\<close> is \<^verbatim>\<open>fmt.Errorf(p + "%w", e)\<close> and \<open>ErrWaitTimeout\<close> the
  constant of the wait library. A run-time panic is not an error value: a function that
  can panic has an \<open>outcome\<close>.
\<close>

datatype error =
    NotFound string
  | Other string
  | Wrap string error
  | ErrWaitTimeout

datatype 'a outcome = Returns 'a | Panics

fun Error :: "error \<Rightarrow> string" where
  "Error (NotFound m) = m"
| "Error (Other m) = m"
| "Error (Wrap p e) = p @ Error e"
| "Error ErrWaitTimeout = ''timed out waiting for the condition''"

record RequestPayload =
  Kubeconfig :: string
  Namespace :: string
  PersistenceDiskGB :: int
  DatabaseDiskGB :: int
  DeploymentName :: string

record APIResponse =
  Success :: bool
  Message :: string
  Resources :: "string list"

text \<open>
  What the handler reads of a request: the method, and what \<^verbatim>\<open>decoder.Decode\<close> makes of the
  body (a field missing from the JSON object is left at its zero value, the empty string
  or 0). What it writes: a status code with a JSON body, or nothing when it panics.
\<close>

record http_request =
  Method :: string
  Body :: "error + RequestPayload"

datatype http_result = Response nat APIResponse | Panic

definition respondFailure :: "nat \<Rightarrow> string \<Rightarrow> http_result" where
  "respondFailure status msg =
     Response status \<lparr>Success = False, Message = msg, Resources = []\<rparr>"

section \<open>Naming\<close>

text \<open>\<^verbatim>\<open>buildResourceName\<close> (main.go 634-653). Go strings are byte strings, as \<open>string\<close> is.\<close>

definition buildResourceName :: "string \<Rightarrow> string \<Rightarrow> string \<Rightarrow> string" where
  "buildResourceName userPrefix resourceType suffix =
     (let maxTotal = (60 :: int);
          fixedLen = int (length resourceType) + 5 + 2;
          allowed0 = maxTotal - fixedLen;
          allowed = (if allowed0 < 0 then 0 else allowed0);
          prefix = (if int (length userPrefix) > allowed
                    then take (nat allowed) userPrefix else userPrefix)
      in prefix @ ''-'' @ suffix @ ''-'' @ resourceType)"

text \<open>
  The same function as the specification words it: the fixed part counts the length of
  the suffix that is passed in.
\<close>

definition buildName_spec :: "string \<Rightarrow> string \<Rightarrow> string \<Rightarrow> string" where
  "buildName_spec userPrefix resourceType suffix =
     (let fixedLen = int (length resourceType) + int (length suffix) + 2;
          allowed = max 0 (60 - fixedLen)
      in take (nat allowed) userPrefix @ ''-'' @ suffix @ ''-'' @ resourceType)"

text \<open>The resource types the pipeline passes (main.go 441-450).\<close>

definition resourceTypes :: "string list" where
  "resourceTypes =
     [''db-pv'', ''db-pvc'', ''db'', ''db-svc'', ''db-secret'',
      ''wp-pv'', ''wp-pvc'', ''wp'', ''wp-svc'']"

section \<open>The world outside the program\<close>

type_synonym byte = "8 word"

text \<open>
  Calls that return nothing but an error. \<open>InitKubeClient\<close> stands for the whole
  configuration lookup of that function (helper file 24-56), on the path it is given, and
  \<open>ParseQuantity n\<close> for \<^verbatim>\<open>resource.ParseQuantity(fmt.Sprintf("%dGi", n))\<close>. A create call
  carries the fields of the object that the helper fills from its arguments; the
  remaining fields of the object are constants:
  \<^item> a volume: its name (also its label), the host path and the capacity in GB;
  \<^item> a volume claim: namespace, name, the label it selects (the name of the volume) and
    the size in GB;
  \<^item> a secret: namespace, name and data;
  \<^item> a deployment: namespace, name (also its label), the image of its one container, the
    claim it mounts and the secret its environment comes from;
  \<^item> a service: namespace, name, the label it selects and its port.
\<close>

datatype call =
    InitKubeClient string
  | ParseQuantity int
  | NamespacesGet string
  | NamespacesCreate string
  | PersistentVolumesCreate string string int
  | PersistentVolumeClaimsCreate string string string int
  | SecretsCreate string string "(string \<times> string) list"
  | DeploymentsCreate string string string string string
  | ServicesCreate string string string nat

text \<open>
  One event per interaction, with its outcome, in the order of execution:
  a call of the above, a draw \<^verbatim>\<open>rand.Int(rand.Reader, max)\<close>, a read \<^verbatim>\<open>rand.Read(buf)\<close>
  of \<open>n\<close> bytes, and a lookup of a deployment, which returns its ready-replica count.
\<close>

datatype event =
    Call call "error option"
  | RandInt nat "error + nat"
  | RandRead nat "error + byte list"
  | DeploymentsGet string string "error + 32 word"

type_synonym trace = "event list"

text \<open>
  The cluster and the entropy source answer as they like: every answer is a function of
  everything that has happened so far and of the call.
\<close>

record world =
  api :: "trace \<Rightarrow> call \<Rightarrow> error option"
  rand_int :: "trace \<Rightarrow> nat \<Rightarrow> error + nat"
  rand_read :: "trace \<Rightarrow> nat \<Rightarrow> error + byte list"
  deployments_get :: "trace \<Rightarrow> string \<Rightarrow> string \<Rightarrow> error + 32 word"

definition invoke :: "world \<Rightarrow> call \<Rightarrow> trace \<Rightarrow> error option \<times> trace" where
  "invoke w c tr = (let r = api w tr c in (r, tr @ [Call c r]))"

section \<open>Random identifiers\<close>

definition suffixChars :: string where
  "suffixChars = ''abcdefghijklmnopqrstuvwxyz0123456789''"

text \<open>
  The loop of \<^verbatim>\<open>generateRandomSuffix\<close> (main.go 656-669) with \<open>k\<close> characters left to
  draw and \<open>acc\<close> the characters drawn so far. Indexing the alphabet outside its range
  panics.
\<close>

fun suffixLoop ::
    "world \<Rightarrow> nat \<Rightarrow> string \<Rightarrow> trace \<Rightarrow> (error + string) outcome \<times> trace" where
  "suffixLoop w 0 acc tr = (Returns (Inr acc), tr)"
| "suffixLoop w (Suc k) acc tr =
     (let m = length suffixChars; r = rand_int w tr m; tr' = tr @ [RandInt m r] in
      case r of
        Inl e \<Rightarrow> (Returns (Inl e), tr')
      | Inr v \<Rightarrow>
          if v < length suffixChars then suffixLoop w k (acc @ [suffixChars ! v]) tr'
          else (Panics, tr'))"

definition generateRandomSuffix ::
    "world \<Rightarrow> nat \<Rightarrow> trace \<Rightarrow> (error + string) outcome \<times> trace" where
  "generateRandomSuffix w n tr = suffixLoop w n [] tr"

definition passwordChars :: string where
  "passwordChars =
     ''ABCDEFGHIJKLMNOPQRSTUVWXYZabcdefghijklmnopqrstuvwxyz0123456789!@#$%^&*()-_+''"

text \<open>One step of the second loop of \<^verbatim>\<open>generateRandomPassword\<close>:
  \<^verbatim>\<open>chars[bytes[i]%byte(len(chars))]\<close>.\<close>

definition passwordChar :: "byte \<Rightarrow> char" where
  "passwordChar b = passwordChars ! unat (b mod of_nat (length passwordChars))"

text \<open>
  \<^verbatim>\<open>generateRandomPassword\<close> (helper file 513-523). The buffer has \<open>n\<close> bytes whatever the
  entropy source delivers.
\<close>

definition generateRandomPassword :: "world \<Rightarrow> nat \<Rightarrow> trace \<Rightarrow> (error + string) \<times> trace" where
  "generateRandomPassword w n tr =
     (let r = rand_read w tr n; tr' = tr @ [RandRead n r] in
      case r of
        Inl e \<Rightarrow> (Inl e, tr')
      | Inr bs \<Rightarrow> (Inr (map passwordChar (take n (bs @ replicate n 0))), tr'))"

text \<open>The bytes that \<open>passwordChar\<close> sends to a given character.\<close>

definition preimages :: "char \<Rightarrow> nat list" where
  "preimages c = filter (\<lambda>n. passwordChar (of_nat n) = c) [0..<256]"

section \<open>Cluster helpers\<close>

text \<open>\<^verbatim>\<open>ensureNamespace\<close> (helper file 72-90).\<close>

definition ensureNamespace :: "world \<Rightarrow> string \<Rightarrow> trace \<Rightarrow> error option \<times> trace" where
  "ensureNamespace w namespace tr =
     (case invoke w (NamespacesGet namespace) tr of
        (None, tr1) \<Rightarrow> (None, tr1)
      | (Some _, tr1) \<Rightarrow>
          (case invoke w (NamespacesCreate namespace) tr1 of
             (Some e, tr2) \<Rightarrow>
               (Some (Wrap (''unable to create namespace '' @ namespace @ '': '') e), tr2)
           | (None, tr2) \<Rightarrow> (None, tr2)))"

text \<open>
  The same step as the specification words it: a create only after a lookup that failed
  with not-found, any other lookup error returned as it is.
\<close>

definition ensureNamespace_spec :: "world \<Rightarrow> string \<Rightarrow> trace \<Rightarrow> error option \<times> trace" where
  "ensureNamespace_spec w namespace tr =
     (case invoke w (NamespacesGet namespace) tr of
        (None, tr1) \<Rightarrow> (None, tr1)
      | (Some (NotFound m), tr1) \<Rightarrow>
          (case invoke w (NamespacesCreate namespace) tr1 of
             (Some e, tr2) \<Rightarrow>
               (Some (Wrap (''unable to create namespace '' @ namespace @ '': '') e), tr2)
           | (None, tr2) \<Rightarrow> (None, tr2))
      | (Some e, tr1) \<Rightarrow> (Some e, tr1))"

text \<open>\<^verbatim>\<open>createPersistentVolume\<close> (helper file 94-132).\<close>

definition createPersistentVolume ::
    "world \<Rightarrow> string \<Rightarrow> string \<Rightarrow> string \<Rightarrow> int \<Rightarrow> trace \<Rightarrow> error option \<times> trace" where
  "createPersistentVolume w namespace pvName hostPath sizeGB tr =
     (case invoke w (ParseQuantity sizeGB) tr of
        (Some e, tr1) \<Rightarrow> (Some (Wrap ''invalid capacity: '' e), tr1)
      | (None, tr1) \<Rightarrow>
          (case invoke w (PersistentVolumesCreate pvName hostPath sizeGB) tr1 of
             (Some e, tr2) \<Rightarrow> (Some (Wrap (''unable to create PV '' @ pvName @ '': '') e), tr2)
           | (None, tr2) \<Rightarrow> (None, tr2)))"

text \<open>\<^verbatim>\<open>createPersistentVolumeClaim\<close> (helper file 135-174).\<close>

definition createPersistentVolumeClaim ::
    "world \<Rightarrow> string \<Rightarrow> string \<Rightarrow> string \<Rightarrow> int \<Rightarrow> trace \<Rightarrow> error option \<times> trace" where
  "createPersistentVolumeClaim w namespace pvcName pvName sizeGB tr =
     (case invoke w (ParseQuantity sizeGB) tr of
        (Some e, tr1) \<Rightarrow> (Some (Wrap ''invalid capacity: '' e), tr1)
      | (None, tr1) \<Rightarrow>
          (case invoke w (PersistentVolumeClaimsCreate namespace pvcName pvName sizeGB) tr1 of
             (Some e, tr2) \<Rightarrow> (Some (Wrap (''unable to create PVC '' @ pvcName @ '': '') e), tr2)
           | (None, tr2) \<Rightarrow> (None, tr2)))"

text \<open>The map literal of \<^verbatim>\<open>createWPMySQLSecret\<close> (helper file 194-204), keys in its order.\<close>

definition secretData :: "string \<Rightarrow> string \<Rightarrow> string \<Rightarrow> (string \<times> string) list" where
  "secretData rootPass wpPass deployName =
     [(''MYSQL_ROOT_PASSWORD'', rootPass),
      (''MYSQL_DATABASE'', ''wordpressdb''),
      (''MYSQL_USER'', ''wordpress''),
      (''MYSQL_PASSWORD'', wpPass),
      (''WORDPRESS_DB_HOST'', deployName @ ''-db-svc''),
      (''WORDPRESS_DB_USER'', ''wordpress''),
      (''WORDPRESS_DB_PASSWORD'', wpPass),
      (''WORDPRESS_DB_NAME'', ''wordpressdb'')]"

text \<open>\<^verbatim>\<open>createWPMySQLSecret\<close> (helper file 178-220).\<close>

definition createWPMySQLSecret ::
    "world \<Rightarrow> string \<Rightarrow> string \<Rightarrow> string \<Rightarrow> trace \<Rightarrow> error option \<times> trace" where
  "createWPMySQLSecret w namespace secretName deployName tr =
     (case generateRandomPassword w 16 tr of
        (Inl e, tr1) \<Rightarrow> (Some (Wrap ''failed to generate root password: '' e), tr1)
      | (Inr rootPass, tr1) \<Rightarrow>
          (case generateRandomPassword w 16 tr1 of
             (Inl e, tr2) \<Rightarrow>
               (Some (Wrap ''failed to generate wordpress user password: '' e), tr2)
           | (Inr wpPass, tr2) \<Rightarrow>
               (case invoke w (SecretsCreate namespace secretName
                                 (secretData rootPass wpPass deployName)) tr2 of
                  (Some e, tr3) \<Rightarrow>
                    (Some (Wrap (''unable to create secret '' @ secretName @ '': '') e), tr3)
                | (None, tr3) \<Rightarrow> (None, tr3))))"

text \<open>\<^verbatim>\<open>createMySQLDeployment\<close> (helper file 224-316): image, claim and secret of the one
  container.\<close>

definition createMySQLDeployment ::
    "world \<Rightarrow> string \<Rightarrow> string \<Rightarrow> string \<Rightarrow> string \<Rightarrow> trace \<Rightarrow> error option \<times> trace" where
  "createMySQLDeployment w namespace deployName pvcName secretName tr =
     (case invoke w (DeploymentsCreate namespace deployName ''mysql:8'' pvcName secretName) tr of
        (Some e, tr1) \<Rightarrow>
          (Some (Wrap (''unable to create MySQL deployment '' @ deployName @ '': '') e), tr1)
      | (None, tr1) \<Rightarrow> (None, tr1))"

text \<open>\<^verbatim>\<open>createMySQLService\<close> (helper file 319-350): name, selector and port.\<close>

definition createMySQLService ::
    "world \<Rightarrow> string \<Rightarrow> string \<Rightarrow> string \<Rightarrow> trace \<Rightarrow> error option \<times> trace" where
  "createMySQLService w namespace svcName deployName tr =
     (case invoke w (ServicesCreate namespace svcName deployName 3306) tr of
        (Some e, tr1) \<Rightarrow>
          (Some (Wrap (''unable to create MySQL service '' @ svcName @ '': '') e), tr1)
      | (None, tr1) \<Rightarrow> (None, tr1))"

text \<open>\<^verbatim>\<open>createWordPressDeployment\<close> (helper file 354-449). The last argument, the name of
  the database service, is not used by the body.\<close>

definition createWordPressDeployment ::
    "world \<Rightarrow> string \<Rightarrow> string \<Rightarrow> string \<Rightarrow> string \<Rightarrow> string \<Rightarrow> trace
       \<Rightarrow> error option \<times> trace" where
  "createWordPressDeployment w namespace deployName pvcName secretName dbSvcName tr =
     (case invoke w (DeploymentsCreate namespace deployName ''wordpress:6.7.1''
                       pvcName secretName) tr of
        (Some e, tr1) \<Rightarrow>
          (Some (Wrap (''unable to create WordPress deployment '' @ deployName @ '': '') e), tr1)
      | (None, tr1) \<Rightarrow> (None, tr1))"

text \<open>\<^verbatim>\<open>createWordPressService\<close> (helper file 452-483).\<close>

definition createWordPressService ::
    "world \<Rightarrow> string \<Rightarrow> string \<Rightarrow> string \<Rightarrow> trace \<Rightarrow> error option \<times> trace" where
  "createWordPressService w namespace svcName deployName tr =
     (case invoke w (ServicesCreate namespace svcName deployName 80) tr of
        (Some e, tr1) \<Rightarrow>
          (Some (Wrap (''unable to create WordPress service '' @ svcName @ '': '') e), tr1)
      | (None, tr1) \<Rightarrow> (None, tr1))"

section \<open>Waiting for a deployment\<close>

text \<open>
  \<^verbatim>\<open>wait.PollImmediate\<close> belongs to a library outside the repository. It is modelled as
  the library runs on a logical clock in seconds, where the condition takes no time: the
  condition is tried at once; from then on a ticker sends a tick after every interval
  and a timer closes the channel of the ticks at the timeout, a tick that falls on the
  timeout being sent first; the condition is tried again at every tick, and one last
  time when the channel is closed. An error of the condition ends the wait with that
  error, a true condition ends it with success, and a false condition at the closed
  channel ends it with \<open>ErrWaitTimeout\<close>. \<open>pollLoop k\<close> is the loop of the library with \<open>k\<close>
  ticks left before the channel is closed. With a timeout of 0 the library sets no timer
  and the ticks never end: the model is for a timeout of at least one second (the
  program passes 120).
\<close>

type_synonym condition = "trace \<Rightarrow> (bool \<times> error option) \<times> trace"

fun pollLoop :: "nat \<Rightarrow> condition \<Rightarrow> trace \<Rightarrow> error option \<times> trace" where
  "pollLoop 0 cond tr =
     (case cond tr of
        ((_, Some e), tr') \<Rightarrow> (Some e, tr')
      | ((True, None), tr') \<Rightarrow> (None, tr')
      | ((False, None), tr') \<Rightarrow> (Some ErrWaitTimeout, tr'))"
| "pollLoop (Suc k) cond tr =
     (case cond tr of
        ((_, Some e), tr') \<Rightarrow> (Some e, tr')
      | ((True, None), tr') \<Rightarrow> (None, tr')
      | ((False, None), tr') \<Rightarrow> pollLoop k cond tr')"

definition PollImmediate :: "nat \<Rightarrow> nat \<Rightarrow> condition \<Rightarrow> trace \<Rightarrow> error option \<times> trace" where
  "PollImmediate interval timeout cond tr =
     (case cond tr of
        ((_, Some e), tr') \<Rightarrow> (Some e, tr')
      | ((True, None), tr') \<Rightarrow> (None, tr')
      | ((False, None), tr') \<Rightarrow> pollLoop (timeout div interval) cond tr')"

text \<open>The condition closure of \<^verbatim>\<open>waitForDeploymentReady\<close> (helper file 490-504).\<close>

definition deploymentReady :: "world \<Rightarrow> string \<Rightarrow> string \<Rightarrow> condition" where
  "deploymentReady w namespace deployName tr =
     (let r = deployments_get w tr namespace deployName;
          tr' = tr @ [DeploymentsGet namespace deployName r] in
      case r of
        Inl e \<Rightarrow> ((False, None), tr')
      | Inr readyReplicas \<Rightarrow>
          if 1 \<le> sint readyReplicas then ((True, None), tr') else ((False, None), tr'))"

text \<open>\<^verbatim>\<open>waitForDeploymentReady\<close> (helper file 486-505); the timeout in seconds.\<close>

definition waitForDeploymentReady ::
    "world \<Rightarrow> string \<Rightarrow> string \<Rightarrow> nat \<Rightarrow> trace \<Rightarrow> error option \<times> trace" where
  "waitForDeploymentReady w namespace deployName timeout tr =
     PollImmediate 5 timeout (deploymentReady w namespace deployName) tr"

section \<open>The request handler\<close>

text \<open>
  The handler is a sequence of blocks of one shape: run a step, and on an error write
  status 500 with a message and return. \<open>runSteps\<close> runs such blocks in order; each block
  is the step with the message it answers on failure.
\<close>

type_synonym step = "(trace \<Rightarrow> error option \<times> trace) \<times> (error \<Rightarrow> string)"

fun runSteps :: "step list \<Rightarrow> trace \<Rightarrow> string option \<times> trace" where
  "runSteps [] tr = (None, tr)"
| "runSteps (s # rest) tr =
     (case fst s tr of
        (Some e, tr') \<Rightarrow> (Some (snd s e), tr')
      | (None, tr') \<Rightarrow> runSteps rest tr')"

text \<open>
  \<^verbatim>\<open>strings.TrimSpace\<close> removes the white space at both ends of a string, first at the
  front and then at the back. A Go string is a string of bytes, read as UTF-8; white
  space is what \<^verbatim>\<open>unicode.IsSpace\<close> accepts, listed here by its encodings: the six
  characters of ASCII, U+0085, U+00A0, U+1680, U+2000 to U+200A, U+2028, U+2029, U+202F,
  U+205F and U+3000. A byte that begins no such encoding ends the trimming.
\<close>

definition spaceRunes :: "string list" where
  "spaceRunes =
     [[CHR 0x09], [CHR 0x0A], [CHR 0x0B], [CHR 0x0C], [CHR 0x0D], [CHR 0x20],
      [CHR 0xC2, CHR 0x85], [CHR 0xC2, CHR 0xA0],
      [CHR 0xE1, CHR 0x9A, CHR 0x80],
      [CHR 0xE2, CHR 0x80, CHR 0x80], [CHR 0xE2, CHR 0x80, CHR 0x81],
      [CHR 0xE2, CHR 0x80, CHR 0x82], [CHR 0xE2, CHR 0x80, CHR 0x83],
      [CHR 0xE2, CHR 0x80, CHR 0x84], [CHR 0xE2, CHR 0x80, CHR 0x85],
      [CHR 0xE2, CHR 0x80, CHR 0x86], [CHR 0xE2, CHR 0x80, CHR 0x87],
      [CHR 0xE2, CHR 0x80, CHR 0x88], [CHR 0xE2, CHR 0x80, CHR 0x89],
      [CHR 0xE2, CHR 0x80, CHR 0x8A],
      [CHR 0xE2, CHR 0x80, CHR 0xA8], [CHR 0xE2, CHR 0x80, CHR 0xA9],
      [CHR 0xE2, CHR 0x80, CHR 0xAF], [CHR 0xE2, CHR 0x81, CHR 0x9F],
      [CHR 0xE3, CHR 0x80, CHR 0x80]]"

text \<open>The string without the characters at its front that \<open>sp\<close> accepts, a character
  being one, two or three bytes.\<close>

fun dropSpace :: "(string \<Rightarrow> bool) \<Rightarrow> string \<Rightarrow> string" where
  "dropSpace sp (a # b # c # s) =
     (if sp [a] then dropSpace sp (b # c # s)
      else if sp [a, b] then dropSpace sp (c # s)
      else if sp [a, b, c] then dropSpace sp s
      else a # b # c # s)"
| "dropSpace sp [a, b] =
     (if sp [a] then dropSpace sp [b] else if sp [a, b] then [] else [a, b])"
| "dropSpace sp [a] = (if sp [a] then [] else [a])"
| "dropSpace sp [] = []"

definition TrimSpace :: "string \<Rightarrow> string" where
  "TrimSpace s =
     rev (dropSpace (\<lambda>r. rev r \<in> set spaceRunes)
            (rev (dropSpace (\<lambda>r. r \<in> set spaceRunes) s)))"

text \<open>
  Method check, decoding, validation and defaults of the handler (main.go 353-394):
  the response of a rejected request, or the payload the pipeline runs on.
\<close>

definition acceptRequest :: "http_request \<Rightarrow> http_result + RequestPayload" where
  "acceptRequest r =
     (if Method r \<noteq> ''POST'' then Inl (respondFailure 405 ''Only POST is allowed'')
      else case Body r of
        Inl e \<Rightarrow> Inl (respondFailure 400 ''Invalid JSON payload'')
      | Inr payload \<Rightarrow>
          if Namespace payload = '''' then Inl (respondFailure 400 ''namespace is required'')
          else
            let p1 = (if TrimSpace (DeploymentName payload) = ''''
                      then payload\<lparr>DeploymentName := ''wp''\<rparr> else payload);
                p2 = (if PersistenceDiskGB p1 \<le> 0 then p1\<lparr>PersistenceDiskGB := 5\<rparr> else p1);
                p3 = (if DatabaseDiskGB p2 \<le> 0 then p2\<lparr>DatabaseDiskGB := 5\<rparr> else p2)
            in Inr p3)"

definition successMessage :: string where
  "successMessage =
     ''WordPress + MySQL stack created successfully. Strong random credentials have been set for MySQL.''"

text \<open>The local variables of the handler that hold the resource names.\<close>

record names =
  dbPVName :: string
  dbPVCName :: string
  dbDeploymentName :: string
  dbServiceName :: string
  dbSecretName :: string
  wpPVName :: string
  wpPVCName :: string
  wpDeploymentName :: string
  wpServiceName :: string

text \<open>The names as the handler derives them (main.go 441-450).\<close>

definition deriveNames :: "RequestPayload \<Rightarrow> string \<Rightarrow> names" where
  "deriveNames payload suffix =
     \<lparr>dbPVName = buildResourceName (DeploymentName payload) ''db-pv'' suffix,
      dbPVCName = buildResourceName (DeploymentName payload) ''db-pvc'' suffix,
      dbDeploymentName = buildResourceName (DeploymentName payload) ''db'' suffix,
      dbServiceName = buildResourceName (DeploymentName payload) ''db-svc'' suffix,
      dbSecretName = buildResourceName (DeploymentName payload) ''db-secret'' suffix,
      wpPVName = buildResourceName (DeploymentName payload) ''wp-pv'' suffix,
      wpPVCName = buildResourceName (DeploymentName payload) ''wp-pvc'' suffix,
      wpDeploymentName = buildResourceName (DeploymentName payload) ''wp'' suffix,
      wpServiceName = buildResourceName (DeploymentName payload) ''wp-svc'' suffix\<rparr>"

text \<open>The summary of a successful request (main.go 597-608).\<close>

definition resourceSummary :: "string \<Rightarrow> names \<Rightarrow> string list" where
  "resourceSummary namespace n =
     [''Namespace: '' @ namespace,
      ''PV: '' @ dbPVName n,
      ''PVC: '' @ dbPVCName n,
      ''PV: '' @ wpPVName n,
      ''PVC: '' @ wpPVCName n,
      ''Secret: '' @ dbSecretName n,
      ''MySQL Deployment: '' @ dbDeploymentName n,
      ''MySQL Service: '' @ dbServiceName n,
      ''WordPress Deployment: '' @ wpDeploymentName n,
      ''WordPress Service: '' @ wpServiceName n]"

text \<open>
  The blocks of the handler from the first volume to the wait for the database
  (main.go 452-555), for an accepted payload and the names derived.
\<close>

definition storageAndDatabaseSteps :: "world \<Rightarrow> RequestPayload \<Rightarrow> names \<Rightarrow> step list" where
  "storageAndDatabaseSteps w payload n =
     [(createPersistentVolume w (Namespace payload) (dbPVName n)
         (''/mnt/data/'' @ Namespace payload @ ''/'' @ dbPVName n @ ''_data'')
         (DatabaseDiskGB payload),
       \<lambda>e. ''Failed to create MySQL PV: '' @ Error e),
      (createPersistentVolumeClaim w (Namespace payload) (dbPVCName n) (dbPVName n)
         (DatabaseDiskGB payload),
       \<lambda>e. ''Failed to create MySQL PVC: '' @ Error e),
      (createPersistentVolume w (Namespace payload) (wpPVName n)
         (''/mnt/data/'' @ Namespace payload @ ''/'' @ wpPVName n @ ''_data'')
         (PersistenceDiskGB payload),
       \<lambda>e. ''Failed to create WordPress PV: '' @ Error e),
      (createPersistentVolumeClaim w (Namespace payload) (wpPVCName n) (wpPVName n)
         (PersistenceDiskGB payload),
       \<lambda>e. ''Failed to create WordPress PVC: '' @ Error e),
      (createWPMySQLSecret w (Namespace payload) (dbSecretName n) (dbServiceName n),
       \<lambda>e. ''Failed to create MySQL/WordPress Secret''),
      (createMySQLDeployment w (Namespace payload) (dbDeploymentName n) (dbPVCName n)
         (dbSecretName n),
       \<lambda>e. ''Failed to create MySQL deployment''),
      (createMySQLService w (Namespace payload) (dbServiceName n) (dbDeploymentName n),
       \<lambda>e. ''Failed to create MySQL service''),
      (waitForDeploymentReady w (Namespace payload) (dbDeploymentName n) 120,
       \<lambda>e. ''MySQL deployment failed to become ready'')]"

text \<open>The blocks that deploy WordPress and wait for it (main.go 557-594).\<close>

definition wordPressSteps :: "world \<Rightarrow> RequestPayload \<Rightarrow> names \<Rightarrow> step list" where
  "wordPressSteps w payload n =
     [(createWordPressDeployment w (Namespace payload) (wpDeploymentName n) (wpPVCName n)
         (dbSecretName n) (dbServiceName n),
       \<lambda>e. ''Failed to create WordPress deployment''),
      (createWordPressService w (Namespace payload) (wpServiceName n) (wpDeploymentName n),
       \<lambda>e. ''Failed to create WordPress service''),
      (waitForDeploymentReady w (Namespace payload) (wpDeploymentName n) 120,
       \<lambda>e. ''WordPress deployment failed to become ready'')]"

definition pipelineSteps :: "world \<Rightarrow> RequestPayload \<Rightarrow> names \<Rightarrow> step list" where
  "pipelineSteps w payload n = storageAndDatabaseSteps w payload n @ wordPressSteps w payload n"

text \<open>
  The handler on an accepted payload (main.go 396-616): suffix, client, namespace, the
  blocks above, summary. The run starts with an empty trace.
\<close>

definition provision :: "world \<Rightarrow> RequestPayload \<Rightarrow> http_result \<times> trace" where
  "provision w payload =
     (case generateRandomSuffix w 5 [] of
        (Panics, tr1) \<Rightarrow> (Panic, tr1)
      | (Returns (Inl e), tr1) \<Rightarrow>
          (respondFailure 500 ''Could not generate unique suffix'', tr1)
      | (Returns (Inr suffix), tr1) \<Rightarrow>
          (case invoke w (InitKubeClient (Kubeconfig payload)) tr1 of
             (Some e, tr2) \<Rightarrow> (respondFailure 500 ''Could not initialize Kubernetes client'', tr2)
           | (None, tr2) \<Rightarrow>
               (case ensureNamespace w (Namespace payload) tr2 of
                  (Some nsErr, tr3) \<Rightarrow> (respondFailure 500 (Error nsErr), tr3)
                | (None, tr3) \<Rightarrow>
                    (let n = deriveNames payload suffix in
                     case runSteps (pipelineSteps w payload n) tr3 of
                       (Some msg, tr4) \<Rightarrow> (respondFailure 500 msg, tr4)
                     | (None, tr4) \<Rightarrow>
                         (Response 200
                            \<lparr>Success = True, Message = successMessage,
                             Resources = resourceSummary (Namespace payload) n\<rparr>,
                          tr4)))))"

text \<open>\<^verbatim>\<open>handleCreateWordPress\<close> (main.go 352-617).\<close>

definition handleCreateWordPress :: "world \<Rightarrow> http_request \<Rightarrow> http_result \<times> trace" where
  "handleCreateWordPress w r =
     (case acceptRequest r of
        Inl response \<Rightarrow> (response, [])
      | Inr payload \<Rightarrow> provision w payload)"

section \<open>The first revision of the handler\<close>

text \<open>
  main.go holds two revisions of the program. The one above (lines 304-669) draws a suffix
  and builds bounded names; the one before it (lines 1-303) is modelled here. Its
  validation (main.go 46-90) rejects an empty \<^verbatim>\<open>deployment_name\<close>.
\<close>

definition acceptRequest_rev1 :: "http_request \<Rightarrow> http_result + RequestPayload" where
  "acceptRequest_rev1 r =
     (if Method r \<noteq> ''POST'' then Inl (respondFailure 405 ''Only POST is allowed'')
      else case Body r of
        Inl e \<Rightarrow> Inl (respondFailure 400 ''Invalid JSON payload'')
      | Inr payload \<Rightarrow>
          if Namespace payload = '''' then Inl (respondFailure 400 ''namespace is required'')
          else if DeploymentName payload = ''''
          then Inl (respondFailure 400 ''deployment_name is required'')
          else
            let p2 = (if PersistenceDiskGB payload \<le> 0
                      then payload\<lparr>PersistenceDiskGB := 5\<rparr> else payload);
                p3 = (if DatabaseDiskGB p2 \<le> 0 then p2\<lparr>DatabaseDiskGB := 5\<rparr> else p2)
            in Inr p3)"

text \<open>The names of the first revision (main.go 124, 151, 178, 193-194, 235-236).\<close>

definition deriveNames_rev1 :: "RequestPayload \<Rightarrow> names" where
  "deriveNames_rev1 payload =
     \<lparr>dbPVName = DeploymentName payload @ ''-db-pv'',
      dbPVCName = DeploymentName payload @ ''-db-pvc'',
      dbDeploymentName = DeploymentName payload @ ''-db'',
      dbServiceName = DeploymentName payload @ ''-db-svc'',
      dbSecretName = DeploymentName payload @ ''-db-secret'',
      wpPVName = DeploymentName payload @ ''-wp-pv'',
      wpPVCName = DeploymentName payload @ ''-wp-pvc'',
      wpDeploymentName = DeploymentName payload @ ''-wp'',
      wpServiceName = DeploymentName payload @ ''-wp-svc''\<rparr>"

text \<open>The blocks of the first revision from the first volume to the second wait
  (main.go 123-274).\<close>

definition pipelineSteps_rev1 :: "world \<Rightarrow> RequestPayload \<Rightarrow> names \<Rightarrow> step list" where
  "pipelineSteps_rev1 w payload n =
     [(createPersistentVolume w (Namespace payload) (dbPVName n)
         (''/mnt/data/'' @ Namespace payload @ ''/'' @ DeploymentName payload @ ''_db'')
         (DatabaseDiskGB payload),
       \<lambda>e. ''Failed to create MySQL PV''),
      (createPersistentVolumeClaim w (Namespace payload) (dbPVCName n) (dbPVName n)
         (DatabaseDiskGB payload),
       \<lambda>e. ''Failed to create MySQL PVC''),
      (createPersistentVolume w (Namespace payload) (wpPVName n)
         (''/mnt/data/'' @ Namespace payload @ ''/'' @ DeploymentName payload @ ''_wordpress'')
         (PersistenceDiskGB payload),
       \<lambda>e. ''Failed to create WordPress PV''),
      (createPersistentVolumeClaim w (Namespace payload) (wpPVCName n) (wpPVName n)
         (PersistenceDiskGB payload),
       \<lambda>e. ''Failed to create WordPress PVC''),
      (createWPMySQLSecret w (Namespace payload) (dbSecretName n) (DeploymentName payload),
       \<lambda>e. ''Failed to create MySQL/WordPress Secret''),
      (createMySQLDeployment w (Namespace payload) (dbDeploymentName n) (dbPVCName n)
         (dbSecretName n),
       \<lambda>e. ''Failed to create MySQL deployment''),
      (createMySQLService w (Namespace payload) (dbServiceName n) (dbDeploymentName n),
       \<lambda>e. ''Failed to create MySQL service''),
      (waitForDeploymentReady w (Namespace payload) (dbDeploymentName n) 120,
       \<lambda>e. ''MySQL deployment failed to become ready''),
      (createWordPressDeployment w (Namespace payload) (wpDeploymentName n) (wpPVCName n)
         (dbSecretName n) (dbServiceName n),
       \<lambda>e. ''Failed to create WordPress deployment''),
      (createWordPressService w (Namespace payload) (wpServiceName n) (wpDeploymentName n),
       \<lambda>e. ''Failed to create WordPress service''),
      (waitForDeploymentReady w (Namespace payload) (wpDeploymentName n) 120,
       \<lambda>e. ''WordPress deployment failed to become ready'')]"

text \<open>\<^verbatim>\<open>handleCreateWordPress\<close> of the first revision (main.go 45-297).\<close>

definition handleCreateWordPress_rev1 :: "world \<Rightarrow> http_request \<Rightarrow> http_result \<times> trace" where
  "handleCreateWordPress_rev1 w r =
     (case acceptRequest_rev1 r of
        Inl response \<Rightarrow> (response, [])
      | Inr payload \<Rightarrow>
          (case invoke w (InitKubeClient (Kubeconfig payload)) [] of
             (Some e, tr2) \<Rightarrow> (respondFailure 500 ''Could not initialize Kubernetes client'', tr2)
           | (None, tr2) \<Rightarrow>
               (case ensureNamespace w (Namespace payload) tr2 of
                  (Some nsErr, tr3) \<Rightarrow> (respondFailure 500 (Error nsErr), tr3)
                | (None, tr3) \<Rightarrow>
                    (let n = deriveNames_rev1 payload in
                     case runSteps (pipelineSteps_rev1 w payload n) tr3 of
                       (Some msg, tr4) \<Rightarrow> (respondFailure 500 msg, tr4)
                     | (None, tr4) \<Rightarrow>
                         (Response 200
                            \<lparr>Success = True, Message = successMessage,
                             Resources = resourceSummary (Namespace payload) n\<rparr>,
                          tr4)))))"

section \<open>Reading a trace\<close>

text \<open>A run that ended with a success response.\<close>

fun succeeded :: "http_result \<Rightarrow> bool" where
  "succeeded (Response status body) = Success body"
| "succeeded Panic = False"

text \<open>
  A failed call that makes its step fail: every failed call but the two lookups, whose
  errors the program handles (a create after the namespace lookup, another poll after the
  deployment lookup).
\<close>

fun call_failed :: "event \<Rightarrow> bool" where
  "call_failed (Call (NamespacesGet n) r) = False"
| "call_failed (Call c r) = (r \<noteq> None)"
| "call_failed (RandInt m r) = isl r"
| "call_failed (RandRead n r) = isl r"
| "call_failed (DeploymentsGet ns d r) = False"

text \<open>The creation of the workload of the application tier or of its endpoint: the
  deployment with the WordPress image, the service on port 80.\<close>

fun app_workload :: "event \<Rightarrow> bool" where
  "app_workload (Call (DeploymentsCreate ns n img pvc secret) r) = (img = ''wordpress:6.7.1'')"
| "app_workload (Call (ServicesCreate ns n d port) r) = (port = 80)"
| "app_workload e = False"

text \<open>A poll that found the deployment with a ready replica.\<close>

fun reportsReady :: "event \<Rightarrow> bool" where
  "reportsReady (DeploymentsGet ns d (Inr n)) = (1 \<le> sint n)"
| "reportsReady e = False"

text \<open>
  The part of the run an event belongs to: a draw for the suffix, the set-up of the
  client, the lookup and creation of the namespace, and everything that carries a
  derived resource name.
\<close>

fun phase :: "event \<Rightarrow> nat" where
  "phase (RandInt m r) = 0"
| "phase (Call (InitKubeClient k) r) = 1"
| "phase (Call (NamespacesGet n) r) = 2"
| "phase (Call (NamespacesCreate n) r) = 2"
| "phase e = 3"

text \<open>A draw that gave a position inside the alphabet of the suffix, and the characters
  that the draws of a trace spell.\<close>

fun drawn :: "event \<Rightarrow> bool" where
  "drawn (RandInt m (Inr v)) = (m = length suffixChars \<and> v < length suffixChars)"
| "drawn e = False"

fun suffixOf :: "trace \<Rightarrow> string" where
  "suffixOf [] = []"
| "suffixOf (RandInt m (Inr v) # tr) = suffixChars ! v # suffixOf tr"
| "suffixOf (e # tr) = suffixOf tr"

text \<open>The claim "the namespace is ensured before the suffix is generated", read on a trace:
  no draw for the suffix comes before the first namespace call.\<close>

definition namespace_before_suffix :: "trace \<Rightarrow> bool" where
  "namespace_before_suffix tr =
     list_all (\<lambda>e. phase e \<noteq> 0) (takeWhile (\<lambda>e. phase e \<noteq> 2) tr)"

text \<open>The connection hosts stored by the secrets of a trace, and the names of the
  database services (port 3306) it created.\<close>

fun dbHosts :: "trace \<Rightarrow> string option list" where
  "dbHosts [] = []"
| "dbHosts (Call (SecretsCreate ns n d) r # tr) = map_of d ''WORDPRESS_DB_HOST'' # dbHosts tr"
| "dbHosts (e # tr) = dbHosts tr"

fun mysqlServices :: "trace \<Rightarrow> string list" where
  "mysqlServices [] = []"
| "mysqlServices (Call (ServicesCreate ns n d p) r # tr) =
     (if p = 3306 then n # mysqlServices tr else mysqlServices tr)"
| "mysqlServices (e # tr) = mysqlServices tr"

text \<open>The credential stores submitted in a trace.\<close>

fun secretsOf :: "trace \<Rightarrow> (string \<times> string) list list" where
  "secretsOf [] = []"
| "secretsOf (Call (SecretsCreate ns n d) r # tr) = d # secretsOf tr"
| "secretsOf (e # tr) = secretsOf tr"

section \<open>Sample worlds and requests\<close>

text \<open>A cluster where every call succeeds and every deployment is ready at the first
  poll, with an entropy source that delivers zeros.\<close>

definition calmWorld :: world where
  "calmWorld =
     \<lparr>api = (\<lambda>tr c. None),
      rand_int = (\<lambda>tr m. Inr 0),
      rand_read = (\<lambda>tr n. Inr (replicate n 0)),
      deployments_get = (\<lambda>tr ns d. Inr 1)\<rparr>"

text \<open>The same cluster with an entropy source whose first read delivers zeros and whose
  later reads deliver ones.\<close>

definition twoPasswordsWorld :: world where
  "twoPasswordsWorld =
     calmWorld\<lparr>rand_read := (\<lambda>tr n. if tr = [] then Inr (replicate n 0)
                                    else Inr (replicate n 1))\<rparr>"

definition demoPayload :: RequestPayload where
  "demoPayload =
     \<lparr>Kubeconfig = '''', Namespace = ''demo'', PersistenceDiskGB = 0, DatabaseDiskGB = 0,
      DeploymentName = ''site''\<rparr>"

definition demoRequest :: http_request where
  "demoRequest = \<lparr>Method = ''POST'', Body = Inr demoPayload\<rparr>"

text \<open>The request \<^verbatim>\<open>{"namespace": "demo"}\<close>.\<close>

definition unnamedRequest :: http_request where
  "unnamedRequest = \<lparr>Method = ''POST'', Body = Inr (demoPayload\<lparr>DeploymentName := ''''\<rparr>)\<rparr>"

text \<open>A cluster whose namespace lookup fails with an error other than not-found.\<close>

definition unreachableLookupWorld :: world where
  "unreachableLookupWorld =
     calmWorld\<lparr>api := (\<lambda>tr c. case c of
        NamespacesGet n \<Rightarrow> Some (Other ''connection refused'') | _ \<Rightarrow> None)\<rparr>"

text \<open>A cluster whose namespace lookup is refused and that forbids the creation of a
  namespace.\<close>

definition brokenClusterWorld :: world where
  "brokenClusterWorld =
     calmWorld\<lparr>api := (\<lambda>tr c. case c of
        NamespacesGet n \<Rightarrow> Some (Other ''connection refused'')
      | NamespacesCreate n \<Rightarrow> Some (Other ''forbidden'')
      | _ \<Rightarrow> None)\<rparr>"

text \<open>A cluster where the namespace is absent.\<close>

definition freshClusterWorld :: world where
  "freshClusterWorld =
     calmWorld\<lparr>api := (\<lambda>tr c. case c of
        NamespacesGet n \<Rightarrow> Some (NotFound ''namespaces not found'') | _ \<Rightarrow> None)\<rparr>"

text \<open>A cluster that refuses every volume claim.\<close>

definition claimRefusedWorld :: world where
  "claimRefusedWorld =
     calmWorld\<lparr>api := (\<lambda>tr c. case c of
        PersistentVolumeClaimsCreate ns n p g \<Rightarrow> Some (Other ''forbidden'') | _ \<Rightarrow> None)\<rparr>"

text \<open>A deployment whose first lookup fails, whose second finds no ready replica and
  whose third finds one; and one that never gets ready.\<close>

definition slowStartWorld :: world where
  "slowStartWorld =
     calmWorld\<lparr>deployments_get := (\<lambda>tr ns d.
        if length tr = 0 then Inl (Other ''connection reset'')
        else if length tr = 1 then Inr 0 else Inr 1)\<rparr>"

definition neverReadyWorld :: world where
  "neverReadyWorld = calmWorld\<lparr>deployments_get := (\<lambda>tr ns d. Inr 0)\<rparr>"

text \<open>A deployment that is ready from its third lookup on.\<close>

definition lateStartWorld :: world where
  "lateStartWorld =
     calmWorld\<lparr>deployments_get := (\<lambda>tr ns d. if length tr < 2 then Inr 0 else Inr 1)\<rparr>"

section \<open>Auxiliary notions for the proofs\<close>

text \<open>
  The events a wait of at most \<open>k + 1\<close> polls adds to the trace \<open>tr\<close>, with its result:
  each event is a lookup of the one deployment with the answer of the cluster at that
  moment, none ready before the last, success exactly when the last is ready, and
  otherwise the timeout after all \<open>k + 1\<close> polls.
\<close>

definition pollsOf ::
    "world \<Rightarrow> string \<Rightarrow> string \<Rightarrow> nat \<Rightarrow> trace \<Rightarrow> error option \<Rightarrow> trace \<Rightarrow> bool" where
  "pollsOf w ns d k tr r evs \<longleftrightarrow>
     evs \<noteq> [] \<and> length evs \<le> Suc k
     \<and> (\<forall>i<length evs.
           evs ! i = DeploymentsGet ns d (deployments_get w (tr @ take i evs) ns d))
     \<and> (\<forall>e\<in>set (butlast evs). \<not> reportsReady e)
     \<and> (r = None \<longleftrightarrow> reportsReady (last evs))
     \<and> (r \<noteq> None \<longrightarrow> r = Some ErrWaitTimeout \<and> length evs = Suc k)"

text \<open>A trace without a failed step.\<close>

definition quiet :: "trace \<Rightarrow> bool" where
  "quiet tr = list_all (\<lambda>e. \<not> call_failed e) tr"

text \<open>
  What a step of the pipeline adds to whatever trace it starts from: events that all
  satisfy \<open>P\<close>, with no failed call before the last of them, and with no failed call at
  all when the step returns no error.
\<close>

definition adds :: "(event \<Rightarrow> bool) \<Rightarrow> (trace \<Rightarrow> 'a option \<times> trace) \<Rightarrow> bool" where
  "adds P act \<longleftrightarrow>
     (\<forall>tr. \<exists>r evs. act tr = (r, tr @ evs) \<and> list_all P evs \<and> quiet (butlast evs)
        \<and> (r = None \<longrightarrow> quiet evs))"

text \<open>
  A trace is gated when each creation of the workload of the application tier, or of its
  endpoint, comes after a poll that reported a ready replica. It has ended ready when its
  last event is such a poll.
\<close>

definition gated :: "trace \<Rightarrow> bool" where
  "gated tr \<longleftrightarrow> (\<forall>i<length tr. app_workload (tr ! i) \<longrightarrow> (\<exists>j<i. reportsReady (tr ! j)))"

definition ended_ready :: "trace \<Rightarrow> bool" where
  "ended_ready tr \<longleftrightarrow> tr \<noteq> [] \<and> reportsReady (last tr)"

text \<open>
  The outcome of a run of the handler is shaped when its trace consists of draws for the
  suffix, then the set-up of the client, then namespace calls, then everything else;
  when no call before the last event of the trace failed; when a trace with a failed
  call comes with a failure response of status 500; when the trace is gated; and when a
  success response comes with a trace that ended ready.
\<close>

definition shaped :: "http_result \<times> trace \<Rightarrow> bool" where
  "shaped out \<longleftrightarrow>
     (\<exists>evs0 evs1 evs2 evs3. snd out = evs0 @ evs1 @ evs2 @ evs3
        \<and> list_all (\<lambda>e. phase e = 0) evs0 \<and> list_all (\<lambda>e. phase e = 1) evs1
        \<and> list_all (\<lambda>e. phase e = 2) evs2 \<and> list_all (\<lambda>e. phase e = 3) evs3)
     \<and> quiet (butlast (snd out))
     \<and> (quiet (snd out) \<or> (\<exists>msg. fst out = respondFailure 500 msg))
     \<and> gated (snd out)
     \<and> (succeeded (fst out) \<longrightarrow> ended_ready (snd out))"

text \<open>
  The trace of a run on the accepted payload \<open>p\<close> is ordered when it consists of draws
  for the suffix, then the set-up of the client, then calls on the namespace, then
  everything else; when anything follows the draws only if they are five draws inside
  the alphabet; when a call on the namespace is made only after a set-up of the client
  that succeeded; and when the last part begins only after the namespace of the payload
  was found, or was looked up in vain and created, and is then what the steps of the
  pipeline add with the names derived from the suffix that the draws spell.
\<close>

definition ordered :: "world \<Rightarrow> RequestPayload \<Rightarrow> trace \<Rightarrow> bool" where
  "ordered w p tr \<longleftrightarrow>
     (\<exists>draws client nsev named.
        tr = draws @ client @ nsev @ named
        \<and> list_all (\<lambda>e. phase e = 0) draws \<and> list_all (\<lambda>e. phase e = 1) client
        \<and> list_all (\<lambda>e. phase e = 2) nsev \<and> list_all (\<lambda>e. phase e = 3) named
        \<and> (client @ nsev @ named \<noteq> [] \<longrightarrow> length draws = 5 \<and> list_all drawn draws)
        \<and> (nsev @ named \<noteq> [] \<longrightarrow> client = [Call (InitKubeClient (Kubeconfig p)) None])
        \<and> (named \<noteq> [] \<longrightarrow>
             (nsev = [Call (NamespacesGet (Namespace p)) None]
              \<or> (\<exists>e. nsev = [Call (NamespacesGet (Namespace p)) (Some e),
                             Call (NamespacesCreate (Namespace p)) None]))
             \<and> (\<exists>msg. runSteps (pipelineSteps w p (deriveNames p (suffixOf draws)))
                        (draws @ client @ nsev) = (msg, tr))))"

section \<open>Names\<close>

lemma suffixLoop_length:
  "suffixLoop w k acc tr = (Returns (Inr s), tr') \<Longrightarrow> length s = length acc + k"
  by (induction k arbitrary: acc tr) (auto simp: Let_def split: sum.splits if_splits)

lemma resourceType_short: "rt \<in> set resourceTypes \<Longrightarrow> length rt \<le> 9"
  by (auto simp: resourceTypes_def)

lemma buildResourceName_length:
  "length suffix = 5 \<Longrightarrow> length resourceType \<le> 53 \<Longrightarrow>
   length (buildResourceName userPrefix resourceType suffix) \<le> 60"
  by (auto simp: buildResourceName_def Let_def)

lemma calm_suffix:
  "generateRandomSuffix calmWorld 5 [] =
     (Returns (Inr ''aaaaa''), replicate 5 (RandInt 36 (Inr 0)))"
  by code_simp

text \<open>
  C3, as the code has it. \<^verbatim>\<open>buildResourceName\<close> returns the prefix, cut to
  \<open>max 0 (60 - (length resourceType + 5 + 2))\<close> characters, then \<open>-\<close>, the suffix, \<open>-\<close> and
  the resource type. The budget counts the constant 5 for the suffix, not the length of
  the suffix passed in; the two agree for a suffix of five characters.
\<close>

theorem buildResourceName_counts_five:
  "buildResourceName userPrefix resourceType suffix =
     take (nat (max 0 (60 - (int (length resourceType) + 5 + 2)))) userPrefix
       @ ''-'' @ suffix @ ''-'' @ resourceType
   \<and> (length suffix = 5 \<longrightarrow>
        buildResourceName userPrefix resourceType suffix
          = buildName_spec userPrefix resourceType suffix)"
  by (auto simp: buildResourceName_def buildName_spec_def Let_def max_def)

theorem buildResourceName_counts_five_witness:
  "length ''k3x9q'' = 5
   \<and> buildResourceName (replicate 70 CHR ''a'') ''db-secret'' ''k3x9q''
       = buildName_spec (replicate 70 CHR ''a'') ''db-secret'' ''k3x9q''"
proof -
  have len: "length ''k3x9q'' = 5" by simp
  from buildResourceName_counts_five [THEN conjunct2, rule_format, OF len] len
  show ?thesis by blast
qed

text \<open>
  C3 as stated fails: with the three-character suffix \<open>abc\<close>, the type \<open>db\<close> and a prefix
  of 60 characters the code keeps 51 characters of the prefix, where a budget computed
  from the length of the suffix keeps 53.
\<close>

theorem buildResourceName_counts_five_counterexample:
  "buildResourceName (replicate 60 CHR ''a'') ''db'' ''abc''
     \<noteq> buildName_spec (replicate 60 CHR ''a'') ''db'' ''abc''"
  by (simp add: buildResourceName_def buildName_spec_def)

text \<open>
  C7. For a prefix of any length (so for the lengths 0 to 1000), each resource type of
  the pipeline and each suffix that \<^verbatim>\<open>generateRandomSuffix(5)\<close> returns, the name built has
  at most 60 characters.
\<close>

theorem resource_names_bounded:
  assumes "generateRandomSuffix w 5 tr = (Returns (Inr suffix), tr')"
    and "resourceType \<in> set resourceTypes"
  shows "length (buildResourceName userPrefix resourceType suffix) \<le> 60"
proof -
  from assms(1) have "length suffix = 5"
    by (auto simp: generateRandomSuffix_def dest: suffixLoop_length)
  moreover from assms(2) have "length resourceType \<le> 53"
    using resourceType_short by fastforce
  ultimately show ?thesis by (rule buildResourceName_length)
qed

theorem resource_names_bounded_witness:
  "generateRandomSuffix calmWorld 5 [] =
     (Returns (Inr ''aaaaa''), replicate 5 (RandInt 36 (Inr 0)))
   \<and> ''db-secret'' \<in> set resourceTypes
   \<and> length (buildResourceName (replicate 1000 CHR ''x'') ''db-secret'' ''aaaaa'') \<le> 60"
proof -
  have types: "''db-secret'' \<in> set resourceTypes" by (simp add: resourceTypes_def)
  from resource_names_bounded [OF calm_suffix types] calm_suffix types
  show ?thesis by blast
qed

section \<open>Passwords\<close>

text \<open>
  C9, evaluated on the code. Of the 256 values of a byte, four are mapped to the first
  character of the alphabet (0, 75, 150 and 225 to \<open>A\<close>) and three to the last (74, 149
  and 224 to \<open>+\<close>): the characters of the alphabet do not have the same number of
  preimages under the reduction modulo 75.
\<close>

theorem passwordChar_is_biased:
  "length (preimages CHR ''A'') = 4 \<and> length (preimages CHR ''+'') = 3"
  by code_simp

section \<open>The credential store\<close>

lemma two_passwords_drawn:
  "generateRandomPassword twoPasswordsWorld 16 [] =
     (Inr (replicate 16 CHR ''A''), [RandRead 16 (Inr (replicate 16 0))])
   \<and> generateRandomPassword twoPasswordsWorld 16 [RandRead 16 (Inr (replicate 16 0))] =
     (Inr (replicate 16 CHR ''B''),
      [RandRead 16 (Inr (replicate 16 0)), RandRead 16 (Inr (replicate 16 1))])"
  by code_simp

lemma two_passwords_secret:
  "createWPMySQLSecret twoPasswordsWorld ''demo'' ''site-db-secret'' ''site'' [] =
     (None,
      [RandRead 16 (Inr (replicate 16 0)), RandRead 16 (Inr (replicate 16 1)),
       Call (SecretsCreate ''demo'' ''site-db-secret''
               (secretData (replicate 16 CHR ''A'') (replicate 16 CHR ''B'') ''site'')) None])"
  by code_simp

text \<open>
  C10. Every credential store that \<^verbatim>\<open>createWPMySQLSecret\<close> submits (every secret among the
  events the call adds to the trace) holds the passwords the call has generated: the
  first password generated is the root password, and the second, the password of the
  application user, is the value of both \<open>MYSQL_PASSWORD\<close> and \<open>WORDPRESS_DB_PASSWORD\<close>.
  Both user entries are \<open>wordpress\<close> and both database entries are \<open>wordpressdb\<close>.
\<close>

theorem secret_entries_agree:
  assumes "createWPMySQLSecret w namespace secretName deployName tr = (r, tr')"
    and "d \<in> set (secretsOf (drop (length tr) tr'))"
  shows "\<exists>rootPass tr1 wpPass tr2.
           generateRandomPassword w 16 tr = (Inr rootPass, tr1)
         \<and> generateRandomPassword w 16 tr1 = (Inr wpPass, tr2)
         \<and> map_of d ''MYSQL_ROOT_PASSWORD'' = Some rootPass
         \<and> map_of d ''MYSQL_PASSWORD'' = Some wpPass
         \<and> map_of d ''WORDPRESS_DB_PASSWORD'' = Some wpPass
         \<and> map_of d ''MYSQL_USER'' = Some ''wordpress''
         \<and> map_of d ''WORDPRESS_DB_USER'' = Some ''wordpress''
         \<and> map_of d ''MYSQL_DATABASE'' = Some ''wordpressdb''
         \<and> map_of d ''WORDPRESS_DB_NAME'' = Some ''wordpressdb''"
proof (cases "generateRandomPassword w 16 tr")
  case (Pair x tr1)
  then have grow1: "tr1 = tr @ [RandRead 16 (rand_read w tr 16)]"
    by (auto simp: generateRandomPassword_def Let_def split: sum.splits)
  show ?thesis
  proof (cases x)
    case (Inl e)
    with Pair assms(1) grow1 have "drop (length tr) tr' = [RandRead 16 (rand_read w tr 16)]"
      by (auto simp: createWPMySQLSecret_def)
    with assms(2) show ?thesis by simp
  next
    case (Inr rootPass)
    note first = Pair [unfolded Inr]
    show ?thesis
    proof (cases "generateRandomPassword w 16 tr1")
      case second: (Pair y tr2)
      then have grow2: "tr2 = tr1 @ [RandRead 16 (rand_read w tr1 16)]"
        by (auto simp: generateRandomPassword_def Let_def split: sum.splits)
      show ?thesis
      proof (cases y)
        case (Inl e)
        with first second assms(1) grow1 grow2 have
          "drop (length tr) tr' =
             [RandRead 16 (rand_read w tr 16), RandRead 16 (rand_read w tr1 16)]"
          by (auto simp: createWPMySQLSecret_def)
        with assms(2) show ?thesis by simp
      next
        case (Inr wpPass)
        note second' = second [unfolded Inr]
        let ?d = "secretData rootPass wpPass deployName"
        from first second' assms(1) grow1 grow2 have
          "drop (length tr) tr' =
             [RandRead 16 (rand_read w tr 16), RandRead 16 (rand_read w tr1 16),
              Call (SecretsCreate namespace secretName ?d)
                (api w tr2 (SecretsCreate namespace secretName ?d))]"
          by (auto simp: createWPMySQLSecret_def invoke_def Let_def split: option.splits)
        with assms(2) have d: "d = ?d" by simp
        have "map_of ?d ''MYSQL_ROOT_PASSWORD'' = Some rootPass"
          and "map_of ?d ''MYSQL_PASSWORD'' = Some wpPass"
          and "map_of ?d ''WORDPRESS_DB_PASSWORD'' = Some wpPass"
          and "map_of ?d ''MYSQL_USER'' = Some ''wordpress''"
          and "map_of ?d ''WORDPRESS_DB_USER'' = Some ''wordpress''"
          and "map_of ?d ''MYSQL_DATABASE'' = Some ''wordpressdb''"
          and "map_of ?d ''WORDPRESS_DB_NAME'' = Some ''wordpressdb''"
          by (simp_all add: secretData_def)
        with first second' show ?thesis unfolding d by (intro exI conjI)
      qed
    qed
  qed
qed

text \<open>
  A run of C10 with an entropy source whose first read delivers zeros and whose later
  reads deliver ones: the root password is sixteen times \<open>A\<close>, and both password
  entries of the two tiers hold the second password, sixteen times \<open>B\<close>.
\<close>

theorem secret_entries_agree_witness:
  "createWPMySQLSecret twoPasswordsWorld ''demo'' ''site-db-secret'' ''site'' [] =
     (None,
      [RandRead 16 (Inr (replicate 16 0)), RandRead 16 (Inr (replicate 16 1)),
       Call (SecretsCreate ''demo'' ''site-db-secret''
               (secretData (replicate 16 CHR ''A'') (replicate 16 CHR ''B'') ''site'')) None])
   \<and> map_of (secretData (replicate 16 CHR ''A'') (replicate 16 CHR ''B'') ''site'')
       ''MYSQL_ROOT_PASSWORD'' = Some (replicate 16 CHR ''A'')
   \<and> map_of (secretData (replicate 16 CHR ''A'') (replicate 16 CHR ''B'') ''site'')
       ''MYSQL_PASSWORD'' = Some (replicate 16 CHR ''B'')
   \<and> map_of (secretData (replicate 16 CHR ''A'') (replicate 16 CHR ''B'') ''site'')
       ''WORDPRESS_DB_PASSWORD'' = Some (replicate 16 CHR ''B'')"
proof -
  let ?d = "secretData (replicate 16 CHR ''A'') (replicate 16 CHR ''B'') ''site''"
  have "?d \<in> set (secretsOf (drop (length ([] :: trace))
               [RandRead 16 (Inr (replicate 16 0)), RandRead 16 (Inr (replicate 16 1)),
                Call (SecretsCreate ''demo'' ''site-db-secret'' ?d) None]))"
    by simp
  from secret_entries_agree [OF two_passwords_secret this]
  obtain rootPass tr1 wpPass tr2 where
    first: "generateRandomPassword twoPasswordsWorld 16 [] = (Inr rootPass, tr1)"
    and second: "generateRandomPassword twoPasswordsWorld 16 tr1 = (Inr wpPass, tr2)"
    and root: "map_of ?d ''MYSQL_ROOT_PASSWORD'' = Some rootPass"
    and db: "map_of ?d ''MYSQL_PASSWORD'' = Some wpPass"
    and wp: "map_of ?d ''WORDPRESS_DB_PASSWORD'' = Some wpPass"
    by (elim exE conjE) (rule that)
  from first two_passwords_drawn have
    r: "rootPass = replicate 16 CHR ''A''" and t: "tr1 = [RandRead 16 (Inr (replicate 16 0))]"
    by simp_all
  from second [unfolded t] two_passwords_drawn have w: "wpPass = replicate 16 CHR ''B''"
    by simp
  from two_passwords_secret root db wp show ?thesis
    unfolding r w by (intro conjI)
qed

section \<open>The namespace\<close>

text \<open>
  C2, as the code has it. \<^verbatim>\<open>ensureNamespace\<close> first looks the namespace up. When the
  lookup succeeds it makes no create call and returns success. When the lookup fails,
  with not-found or with any other error, it issues one create call and returns what
  that call returns: success when the create succeeds, and otherwise the error of the
  create, wrapped in the message \<open>unable to create namespace\<close>. The error of the lookup is
  never returned.
\<close>

theorem ensureNamespace_get_then_create:
  "(api w tr (NamespacesGet ns) = None \<longrightarrow>
      ensureNamespace w ns tr = (None, tr @ [Call (NamespacesGet ns) None]))
   \<and> (api w tr (NamespacesGet ns) = Some e \<longrightarrow>
      (let tr1 = tr @ [Call (NamespacesGet ns) (Some e)];
           r = api w tr1 (NamespacesCreate ns)
       in ensureNamespace w ns tr =
            (map_option (Wrap (''unable to create namespace '' @ ns @ '': '')) r,
             tr1 @ [Call (NamespacesCreate ns) r])))"
  by (auto simp: ensureNamespace_def invoke_def Let_def split: option.splits)

text \<open>
  C2 as stated fails: a lookup that fails with \<open>connection refused\<close>, which is not a
  not-found error, is followed by a create call, and the step succeeds; as the claim has
  it, the lookup error would be returned and no create call made.
\<close>

theorem ensureNamespace_get_then_create_counterexample:
  "ensureNamespace unreachableLookupWorld ''demo'' [] =
     (None, [Call (NamespacesGet ''demo'') (Some (Other ''connection refused'')),
             Call (NamespacesCreate ''demo'') None])
   \<and> ensureNamespace_spec unreachableLookupWorld ''demo'' [] =
     (Some (Other ''connection refused''),
      [Call (NamespacesGet ''demo'') (Some (Other ''connection refused''))])"
  by code_simp

text \<open>
  Four runs of C2: the namespace is found; it is absent and the create succeeds; the
  lookup is refused and the create succeeds; the lookup is refused and the create is
  forbidden, where the error returned is the wrapped error of the create, not that of
  the lookup.
\<close>

theorem ensureNamespace_get_then_create_witness:
  "ensureNamespace calmWorld ''demo'' [] = (None, [Call (NamespacesGet ''demo'') None])
   \<and> ensureNamespace freshClusterWorld ''demo'' [] =
       (None, [Call (NamespacesGet ''demo'') (Some (NotFound ''namespaces not found'')),
               Call (NamespacesCreate ''demo'') None])
   \<and> ensureNamespace unreachableLookupWorld ''demo'' [] =
       (None, [Call (NamespacesGet ''demo'') (Some (Other ''connection refused'')),
               Call (NamespacesCreate ''demo'') None])
   \<and> ensureNamespace brokenClusterWorld ''demo'' [] =
       (Some (Wrap ''unable to create namespace demo: '' (Other ''forbidden'')),
        [Call (NamespacesGet ''demo'') (Some (Other ''connection refused'')),
         Call (NamespacesCreate ''demo'') (Some (Other ''forbidden''))])"
proof -
  have found: "api calmWorld [] (NamespacesGet ''demo'') = None"
    by (simp add: calmWorld_def)
  have absent: "api freshClusterWorld [] (NamespacesGet ''demo'')
                   = Some (NotFound ''namespaces not found'')"
    by (simp add: freshClusterWorld_def calmWorld_def)
  have fresh: "api freshClusterWorld
      ([] @ [Call (NamespacesGet ''demo'') (Some (NotFound ''namespaces not found''))])
      (NamespacesCreate ''demo'') = None"
    by (simp add: freshClusterWorld_def calmWorld_def)
  have refused: "api unreachableLookupWorld [] (NamespacesGet ''demo'')
                   = Some (Other ''connection refused'')"
    by (simp add: unreachableLookupWorld_def calmWorld_def)
  have created: "api unreachableLookupWorld
      ([] @ [Call (NamespacesGet ''demo'') (Some (Other ''connection refused''))])
      (NamespacesCreate ''demo'') = None"
    by (simp add: unreachableLookupWorld_def calmWorld_def)
  have refused': "api brokenClusterWorld [] (NamespacesGet ''demo'')
                   = Some (Other ''connection refused'')"
    by (simp add: brokenClusterWorld_def calmWorld_def)
  have forbidden: "api brokenClusterWorld
      ([] @ [Call (NamespacesGet ''demo'') (Some (Other ''connection refused''))])
      (NamespacesCreate ''demo'') = Some (Other ''forbidden'')"
    by (simp add: brokenClusterWorld_def calmWorld_def)
  note a = ensureNamespace_get_then_create [THEN conjunct1, rule_format, OF found]
  note b = ensureNamespace_get_then_create [THEN conjunct2, rule_format, OF refused]
  note c = ensureNamespace_get_then_create [THEN conjunct2, rule_format, OF refused']
  note n = ensureNamespace_get_then_create [THEN conjunct2, rule_format, OF absent]
  from a have "ensureNamespace calmWorld ''demo'' [] = (None, [Call (NamespacesGet ''demo'') None])"
    by simp
  moreover from n fresh have "ensureNamespace freshClusterWorld ''demo'' [] =
       (None, [Call (NamespacesGet ''demo'') (Some (NotFound ''namespaces not found'')),
               Call (NamespacesCreate ''demo'') None])"
    by (simp add: Let_def)
  moreover from b created have "ensureNamespace unreachableLookupWorld ''demo'' [] =
       (None, [Call (NamespacesGet ''demo'') (Some (Other ''connection refused'')),
               Call (NamespacesCreate ''demo'') None])"
    by (simp add: Let_def)
  moreover from c forbidden have "ensureNamespace brokenClusterWorld ''demo'' [] =
       (Some (Wrap ''unable to create namespace demo: '' (Other ''forbidden'')),
        [Call (NamespacesGet ''demo'') (Some (Other ''connection refused'')),
         Call (NamespacesCreate ''demo'') (Some (Other ''forbidden''))])"
    by (simp add: Let_def)
  ultimately show ?thesis by (intro conjI)
qed

section \<open>Waiting for a deployment\<close>

lemma deploymentReady_step:
  "deploymentReady w ns d tr =
     ((reportsReady (DeploymentsGet ns d (deployments_get w tr ns d)), None),
      tr @ [DeploymentsGet ns d (deployments_get w tr ns d)])"
  by (simp add: deploymentReady_def Let_def split: sum.splits)

lemma pollsOf_single:
  assumes "ev = DeploymentsGet ns d (deployments_get w tr ns d)"
  shows "pollsOf w ns d 0 tr (if reportsReady ev then None else Some ErrWaitTimeout) [ev]"
  using assms by (simp add: pollsOf_def)

lemma pollsOf_ready:
  assumes "reportsReady ev" and "ev = DeploymentsGet ns d (deployments_get w tr ns d)"
  shows "pollsOf w ns d k tr None [ev]"
  using assms by (simp add: pollsOf_def)

lemma pollsOf_later:
  assumes "\<not> reportsReady ev" and "ev = DeploymentsGet ns d (deployments_get w tr ns d)"
    and "pollsOf w ns d k (tr @ [ev]) r evs"
  shows "pollsOf w ns d (Suc k) tr r (ev # evs)"
proof -
  from assms(3) have
    ne: "evs \<noteq> []" and len: "length evs \<le> Suc k"
    and at: "\<forall>i<length evs.
               evs ! i = DeploymentsGet ns d (deployments_get w ((tr @ [ev]) @ take i evs) ns d)"
    and before: "\<forall>e\<in>set (butlast evs). \<not> reportsReady e"
    and res: "r = None \<longleftrightarrow> reportsReady (last evs)"
    and late: "r \<noteq> None \<longrightarrow> r = Some ErrWaitTimeout \<and> length evs = Suc k"
    unfolding pollsOf_def by blast+
  have "(ev # evs) ! i = DeploymentsGet ns d (deployments_get w (tr @ take i (ev # evs)) ns d)"
    if "i < length (ev # evs)" for i
  proof (cases i)
    case 0
    with assms(2) show ?thesis by simp
  next
    case (Suc j)
    with that have "j < length evs" by simp
    with at have "evs ! j = DeploymentsGet ns d
        (deployments_get w ((tr @ [ev]) @ take j evs) ns d)" by simp
    with Suc show ?thesis by simp
  qed
  moreover from ne before assms(1) have "\<forall>e\<in>set (butlast (ev # evs)). \<not> reportsReady e"
    by simp
  moreover from ne res have "r = None \<longleftrightarrow> reportsReady (last (ev # evs))" by simp
  moreover from late have
    "r \<noteq> None \<longrightarrow> r = Some ErrWaitTimeout \<and> length (ev # evs) = Suc (Suc k)" by simp
  moreover from len have "length (ev # evs) \<le> Suc (Suc k)" by simp
  ultimately show ?thesis unfolding pollsOf_def by simp
qed

lemma pollLoop_polls:
  "\<exists>evs. pollLoop k (deploymentReady w ns d) tr
            = (fst (pollLoop k (deploymentReady w ns d) tr), tr @ evs)
         \<and> pollsOf w ns d k tr (fst (pollLoop k (deploymentReady w ns d) tr)) evs"
proof (induction k arbitrary: tr)
  case 0
  let ?ev = "DeploymentsGet ns d (deployments_get w tr ns d)"
  have "pollLoop 0 (deploymentReady w ns d) tr
          = (if reportsReady ?ev then None else Some ErrWaitTimeout, tr @ [?ev])"
    by (simp add: deploymentReady_step)
  with pollsOf_single [OF refl, of w ns d tr] show ?case by auto
next
  case (Suc k)
  let ?ev = "DeploymentsGet ns d (deployments_get w tr ns d)"
  show ?case
  proof (cases "reportsReady ?ev")
    case True
    then have "pollLoop (Suc k) (deploymentReady w ns d) tr = (None, tr @ [?ev])"
      by (simp add: deploymentReady_step)
    with pollsOf_ready [OF True refl] show ?thesis by auto
  next
    case False
    then have unfold: "pollLoop (Suc k) (deploymentReady w ns d) tr
                 = pollLoop k (deploymentReady w ns d) (tr @ [?ev])"
      by (simp add: deploymentReady_step)
    from Suc.IH [of "tr @ [?ev]"] obtain evs where
      run: "pollLoop k (deploymentReady w ns d) (tr @ [?ev])
              = (fst (pollLoop k (deploymentReady w ns d) (tr @ [?ev])), (tr @ [?ev]) @ evs)"
      and polls: "pollsOf w ns d k (tr @ [?ev])
                    (fst (pollLoop k (deploymentReady w ns d) (tr @ [?ev]))) evs"
      by (elim exE conjE) (rule that)
    from pollsOf_later [OF False refl polls] run unfold show ?thesis
      by (intro exI [of _ "?ev # evs"]) simp
  qed
qed

lemma PollImmediate_pollLoop:
  "PollImmediate interval timeout cond tr = pollLoop (Suc (timeout div interval)) cond tr"
  by (simp add: PollImmediate_def)

lemma wait_polls:
  "\<exists>evs. waitForDeploymentReady w ns d timeout tr
            = (fst (waitForDeploymentReady w ns d timeout tr), tr @ evs)
         \<and> pollsOf w ns d (Suc (timeout div 5)) tr
             (fst (waitForDeploymentReady w ns d timeout tr)) evs"
  unfolding waitForDeploymentReady_def PollImmediate_pollLoop by (rule pollLoop_polls)

lemma polls_are_lookups:
  assumes "pollsOf w ns d k tr r evs"
  shows "\<forall>e\<in>set evs. \<exists>x. e = DeploymentsGet ns d x"
proof
  fix e
  assume "e \<in> set evs"
  then obtain i where "i < length evs" and "evs ! i = e"
    by (auto simp: in_set_conv_nth)
  with assms show "\<exists>x. e = DeploymentsGet ns d x"
    unfolding pollsOf_def by blast
qed

lemma slow_start_run:
  "waitForDeploymentReady slowStartWorld ''demo'' ''db'' 120 [] =
     (None, [DeploymentsGet ''demo'' ''db'' (Inl (Other ''connection reset'')),
             DeploymentsGet ''demo'' ''db'' (Inr 0),
             DeploymentsGet ''demo'' ''db'' (Inr 1)])"
  by code_simp

lemma never_ready_run:
  "waitForDeploymentReady neverReadyWorld ''demo'' ''db'' 120 [] =
     (Some ErrWaitTimeout, replicate 26 (DeploymentsGet ''demo'' ''db'' (Inr 0)))"
  by code_simp

lemma late_start_run:
  "waitForDeploymentReady lateStartWorld ''demo'' ''db'' 7 [] =
     (None, [DeploymentsGet ''demo'' ''db'' (Inr 0),
             DeploymentsGet ''demo'' ''db'' (Inr 0),
             DeploymentsGet ''demo'' ''db'' (Inr 1)])"
  by code_simp

text \<open>
  C5. For a timeout of at least one second, \<^verbatim>\<open>waitForDeploymentReady\<close> adds to the trace
  one poll per tick of five seconds, after the poll it makes at once and before the one
  it makes when the timeout has elapsed: at most \<open>timeout div 5 + 2\<close> polls, 26 for the
  120 seconds of the program. Each poll is a lookup of the one deployment in the one
  namespace, with the answer the cluster gives at that moment. No poll before the last
  reports a ready replica, and the wait succeeds exactly when the last one does: the
  first ready poll ends the wait, with no further poll. The only error it returns is the
  timeout, and only after all \<open>timeout div 5 + 2\<close> polls, none of them ready. A poll
  whose lookup failed is a poll that is not ready: it ends nothing and the next poll
  follows.
\<close>

theorem waitForDeploymentReady_polls:
  assumes "0 < timeout"
  shows "\<exists>evs. snd (waitForDeploymentReady w ns d timeout tr) = tr @ evs
     \<and> evs \<noteq> [] \<and> length evs \<le> timeout div 5 + 2
     \<and> (\<forall>i<length evs.
           evs ! i = DeploymentsGet ns d (deployments_get w (tr @ take i evs) ns d))
     \<and> (\<forall>e\<in>set (butlast evs). \<not> reportsReady e)
     \<and> (fst (waitForDeploymentReady w ns d timeout tr) = None \<longleftrightarrow> reportsReady (last evs))
     \<and> (fst (waitForDeploymentReady w ns d timeout tr) \<noteq> None \<longrightarrow>
          fst (waitForDeploymentReady w ns d timeout tr) = Some ErrWaitTimeout
          \<and> length evs = timeout div 5 + 2)"
proof -
  from wait_polls [of w ns d timeout tr] obtain evs where
    run: "waitForDeploymentReady w ns d timeout tr
            = (fst (waitForDeploymentReady w ns d timeout tr), tr @ evs)"
    and polls: "pollsOf w ns d (Suc (timeout div 5)) tr
                  (fst (waitForDeploymentReady w ns d timeout tr)) evs"
    by (elim exE conjE) (rule that)
  from run have "snd (waitForDeploymentReady w ns d timeout tr) = tr @ evs"
    by (metis snd_conv)
  with polls show ?thesis
    unfolding pollsOf_def by auto
qed

text \<open>
  Three runs of C5. A deployment whose first lookup fails and whose third finds a ready
  replica: the wait makes three polls, the failed one among them, and succeeds. A
  deployment that never gets ready: the wait with the 120 seconds of the program makes
  26 polls, then times out. A deployment that is ready from its third lookup on, with a
  timeout of 7 seconds: the third poll, made when the timeout has elapsed, is the
  \<open>7 div 5 + 2\<close>-nd and the wait succeeds.
\<close>

theorem waitForDeploymentReady_polls_witness:
  "(0::nat) < 120 \<and> (0::nat) < 7
   \<and> snd (waitForDeploymentReady slowStartWorld ''demo'' ''db'' 120 []) ! 0
       = DeploymentsGet ''demo'' ''db'' (deployments_get slowStartWorld [] ''demo'' ''db'')
   \<and> reportsReady (last (snd (waitForDeploymentReady slowStartWorld ''demo'' ''db'' 120 [])))
   \<and> length (snd (waitForDeploymentReady neverReadyWorld ''demo'' ''db'' 120 []))
       = 120 div 5 + 2
   \<and> length (snd (waitForDeploymentReady lateStartWorld ''demo'' ''db'' 7 [])) \<le> 7 div 5 + 2
   \<and> reportsReady (last (snd (waitForDeploymentReady lateStartWorld ''demo'' ''db'' 7 [])))"
proof -
  have budget: "(0::nat) < 120" and short: "(0::nat) < 7" by simp_all
  from waitForDeploymentReady_polls [OF budget, of slowStartWorld "''demo''" "''db''" "[]"]
  obtain evs where
    trace: "snd (waitForDeploymentReady slowStartWorld ''demo'' ''db'' 120 []) = [] @ evs"
    and ne: "evs \<noteq> []"
    and at: "\<forall>i<length evs. evs ! i = DeploymentsGet ''demo'' ''db''
               (deployments_get slowStartWorld ([] @ take i evs) ''demo'' ''db'')"
    and ready: "fst (waitForDeploymentReady slowStartWorld ''demo'' ''db'' 120 []) = None
                  \<longleftrightarrow> reportsReady (last evs)"
    by (elim exE conjE) (rule that)
  have "fst (waitForDeploymentReady slowStartWorld ''demo'' ''db'' 120 []) = None"
    by (simp add: slow_start_run)
  with ready trace have first:
    "reportsReady (last (snd (waitForDeploymentReady slowStartWorld ''demo'' ''db'' 120 [])))"
    by simp
  from ne at have "evs ! 0 = DeploymentsGet ''demo'' ''db''
      (deployments_get slowStartWorld ([] @ take 0 evs) ''demo'' ''db'')"
    by (simp only: length_greater_0_conv [symmetric])
  with trace have tied:
    "snd (waitForDeploymentReady slowStartWorld ''demo'' ''db'' 120 []) ! 0
       = DeploymentsGet ''demo'' ''db'' (deployments_get slowStartWorld [] ''demo'' ''db'')"
    by simp
  from waitForDeploymentReady_polls [OF budget, of neverReadyWorld "''demo''" "''db''" "[]"]
  obtain evs' where
    trace': "snd (waitForDeploymentReady neverReadyWorld ''demo'' ''db'' 120 []) = [] @ evs'"
    and timeout: "fst (waitForDeploymentReady neverReadyWorld ''demo'' ''db'' 120 []) \<noteq> None
                  \<longrightarrow> fst (waitForDeploymentReady neverReadyWorld ''demo'' ''db'' 120 [])
                        = Some ErrWaitTimeout
                      \<and> length evs' = 120 div 5 + 2"
    by (elim exE conjE) (rule that)
  have "fst (waitForDeploymentReady neverReadyWorld ''demo'' ''db'' 120 []) \<noteq> None"
    by (simp add: never_ready_run)
  with timeout trace' have never:
    "length (snd (waitForDeploymentReady neverReadyWorld ''demo'' ''db'' 120 [])) = 120 div 5 + 2"
    by simp
  from waitForDeploymentReady_polls [OF short, of lateStartWorld "''demo''" "''db''" "[]"]
  obtain evs'' where
    trace'': "snd (waitForDeploymentReady lateStartWorld ''demo'' ''db'' 7 []) = [] @ evs''"
    and bound: "length evs'' \<le> 7 div 5 + 2"
    and ready'': "fst (waitForDeploymentReady lateStartWorld ''demo'' ''db'' 7 []) = None
                  \<longleftrightarrow> reportsReady (last evs'')"
    by (elim exE conjE) (rule that)
  have "fst (waitForDeploymentReady lateStartWorld ''demo'' ''db'' 7 []) = None"
    by (simp add: late_start_run)
  with ready'' trace'' bound have late:
    "length (snd (waitForDeploymentReady lateStartWorld ''demo'' ''db'' 7 [])) \<le> 7 div 5 + 2"
    "reportsReady (last (snd (waitForDeploymentReady lateStartWorld ''demo'' ''db'' 7 [])))"
    by simp_all
  from budget short tied first never late show ?thesis by (intro conjI)
qed

section \<open>Traces of the pipeline\<close>

lemma quiet_append [simp]: "quiet (xs @ ys) \<longleftrightarrow> quiet xs \<and> quiet ys"
  by (simp add: quiet_def)

lemma quiet_Nil [simp]: "quiet []"
  by (simp add: quiet_def)

lemma quiet_Cons [simp]: "quiet (e # es) \<longleftrightarrow> \<not> call_failed e \<and> quiet es"
  by (simp add: quiet_def)

lemma quiet_butlast: "quiet xs \<Longrightarrow> quiet (butlast xs)"
  by (induction xs) auto

lemma butlast_quiet_append:
  "quiet xs \<Longrightarrow> quiet (butlast ys) \<Longrightarrow> quiet (butlast (xs @ ys))"
  by (cases "ys = []") (auto simp: butlast_append quiet_butlast)

lemma addsI:
  assumes "\<And>tr. \<exists>r evs. act tr = (r, tr @ evs) \<and> list_all P evs \<and> quiet (butlast evs)
        \<and> (r = None \<longrightarrow> quiet evs)"
  shows "adds P act"
  unfolding adds_def using assms by (rule allI)

lemma addsE:
  assumes "adds P act"
  obtains r evs where "act tr = (r, tr @ evs)" and "list_all P evs" and "quiet (butlast evs)"
    and "r = None \<longrightarrow> quiet evs"
proof -
  from assms have "\<exists>r evs. act tr = (r, tr @ evs) \<and> list_all P evs \<and> quiet (butlast evs)
        \<and> (r = None \<longrightarrow> quiet evs)"
    unfolding adds_def by (rule spec)
  then show thesis
    by (elim exE conjE) (rule that)
qed

lemma adds_createPersistentVolume:
  "adds (\<lambda>e. phase e = 3 \<and> \<not> app_workload e) (createPersistentVolume w ns n p g)"
  by (rule addsI)
     (auto simp: createPersistentVolume_def invoke_def Let_def split: option.splits)

lemma adds_createPersistentVolumeClaim:
  "adds (\<lambda>e. phase e = 3 \<and> \<not> app_workload e) (createPersistentVolumeClaim w ns n p g)"
  by (rule addsI)
     (auto simp: createPersistentVolumeClaim_def invoke_def Let_def split: option.splits)

lemma adds_createWPMySQLSecret:
  "adds (\<lambda>e. phase e = 3 \<and> \<not> app_workload e) (createWPMySQLSecret w ns n d)"
  by (rule addsI)
     (auto simp: createWPMySQLSecret_def generateRandomPassword_def invoke_def Let_def
        split: option.splits sum.splits)

lemma adds_createMySQLDeployment:
  "adds (\<lambda>e. phase e = 3 \<and> \<not> app_workload e) (createMySQLDeployment w ns n p s)"
  by (rule addsI)
     (auto simp: createMySQLDeployment_def invoke_def Let_def split: option.splits)

lemma adds_createMySQLService:
  "adds (\<lambda>e. phase e = 3 \<and> \<not> app_workload e) (createMySQLService w ns n d)"
  by (rule addsI)
     (auto simp: createMySQLService_def invoke_def Let_def split: option.splits)

lemma adds_createWordPressDeployment:
  "adds (\<lambda>e. phase e = 3) (createWordPressDeployment w ns n p s d)"
  by (rule addsI)
     (auto simp: createWordPressDeployment_def invoke_def Let_def split: option.splits)

lemma adds_createWordPressService:
  "adds (\<lambda>e. phase e = 3) (createWordPressService w ns n d)"
  by (rule addsI)
     (auto simp: createWordPressService_def invoke_def Let_def split: option.splits)

lemma adds_ensureNamespace: "adds (\<lambda>e. phase e = 2) (ensureNamespace w ns)"
  by (rule addsI) (auto simp: ensureNamespace_def invoke_def Let_def split: option.splits)

lemma polls_quiet:
  "\<forall>e\<in>set evs. \<exists>x. e = DeploymentsGet ns d x \<Longrightarrow>
   quiet evs \<and> list_all (\<lambda>e. phase e = 3 \<and> \<not> app_workload e) evs"
  by (induction evs) auto

lemma adds_waitForDeploymentReady:
  "adds (\<lambda>e. phase e = 3 \<and> \<not> app_workload e) (waitForDeploymentReady w ns d t)"
proof (rule addsI)
  fix tr
  from wait_polls [of w ns d t tr] obtain evs where
    run: "waitForDeploymentReady w ns d t tr
            = (fst (waitForDeploymentReady w ns d t tr), tr @ evs)"
    and polls: "pollsOf w ns d (Suc (t div 5)) tr
                  (fst (waitForDeploymentReady w ns d t tr)) evs"
    by (elim exE conjE) (rule that)
  from polls have "\<forall>e\<in>set evs. \<exists>x. e = DeploymentsGet ns d x"
    by (rule polls_are_lookups)
  then have calm: "quiet evs"
    and p: "list_all (\<lambda>e. phase e = 3 \<and> \<not> app_workload e) evs"
    using polls_quiet by blast+
  from calm have "quiet (butlast evs)" by (rule quiet_butlast)
  with run p calm show "\<exists>r evs. waitForDeploymentReady w ns d t tr = (r, tr @ evs)
      \<and> list_all (\<lambda>e. phase e = 3 \<and> \<not> app_workload e) evs \<and> quiet (butlast evs)
      \<and> (r = None \<longrightarrow> quiet evs)"
    by (intro exI conjI impI)
qed

lemma adds_runSteps:
  assumes "\<forall>s\<in>set steps. adds P (fst s)"
  shows "adds P (runSteps steps)"
proof (rule addsI)
  fix tr
  from assms show "\<exists>r evs. runSteps steps tr = (r, tr @ evs) \<and> list_all P evs
      \<and> quiet (butlast evs) \<and> (r = None \<longrightarrow> quiet evs)"
  proof (induction steps arbitrary: tr)
    case Nil
    have "runSteps [] tr = (None, tr @ [])" by simp
    moreover have "list_all P []" and "quiet (butlast [])" and "quiet []" by simp_all
    ultimately show ?case by (intro exI conjI impI)
  next
    case (Cons s rest)
    from Cons.prems have "adds P (fst s)" by simp
    then obtain r1 evs1 where
      one: "fst s tr = (r1, tr @ evs1)" and p1: "list_all P evs1"
      and b1: "quiet (butlast evs1)" and q1: "r1 = None \<longrightarrow> quiet evs1"
      by (rule addsE)
    show ?case
    proof (cases r1)
      case (Some e)
      with one have "runSteps (s # rest) tr = (Some (snd s e), tr @ evs1)" by simp
      moreover have "Some (snd s e) = None \<longrightarrow> quiet evs1" by simp
      ultimately show ?thesis using p1 b1 by (intro exI conjI)
    next
      case None
      with q1 have calm: "quiet evs1" by simp
      from Cons.prems have "\<forall>s\<in>set rest. adds P (fst s)" by simp
      from Cons.IH [OF this, of "tr @ evs1"] obtain r2 evs2 where
        two: "runSteps rest (tr @ evs1) = (r2, (tr @ evs1) @ evs2)" and p2: "list_all P evs2"
        and b2: "quiet (butlast evs2)" and q2: "r2 = None \<longrightarrow> quiet evs2"
        by (elim exE conjE) (rule that)
      from one None two have "runSteps (s # rest) tr = (r2, tr @ evs1 @ evs2)" by simp
      moreover from p1 p2 have "list_all P (evs1 @ evs2)" by simp
      moreover from calm b2 have "quiet (butlast (evs1 @ evs2))"
        by (rule butlast_quiet_append)
      moreover from calm q2 have "r2 = None \<longrightarrow> quiet (evs1 @ evs2)" by simp
      ultimately show ?thesis by (intro exI conjI)
    qed
  qed
qed

lemma adds_mono:
  assumes "adds P act" and "\<And>e. P e \<Longrightarrow> Q e"
  shows "adds Q act"
proof (rule addsI)
  fix tr
  from assms(1) obtain r evs where
    "act tr = (r, tr @ evs)" and "list_all P evs" and "quiet (butlast evs)"
    and "r = None \<longrightarrow> quiet evs"
    by (rule addsE)
  moreover from \<open>list_all P evs\<close> assms(2) have "list_all Q evs"
    by (auto simp: list_all_iff)
  ultimately show "\<exists>r evs. act tr = (r, tr @ evs) \<and> list_all Q evs \<and> quiet (butlast evs)
      \<and> (r = None \<longrightarrow> quiet evs)"
    by (intro exI conjI)
qed

lemma adds_storageAndDatabaseSteps:
  "\<forall>s\<in>set (storageAndDatabaseSteps w payload n).
     adds (\<lambda>e. phase e = 3 \<and> \<not> app_workload e) (fst s)"
  by (simp add: storageAndDatabaseSteps_def adds_createPersistentVolume
      adds_createPersistentVolumeClaim adds_createWPMySQLSecret adds_createMySQLDeployment
      adds_createMySQLService adds_waitForDeploymentReady)

lemma adds_wordPressSteps:
  "\<forall>s\<in>set (wordPressSteps w payload n). adds (\<lambda>e. phase e = 3) (fst s)"
  by (simp add: wordPressSteps_def adds_createWordPressDeployment adds_createWordPressService
      adds_mono [OF adds_waitForDeploymentReady])

lemma adds_pipelineSteps:
  "\<forall>s\<in>set (pipelineSteps w payload n). adds (\<lambda>e. phase e = 3) (fst s)"
  using adds_storageAndDatabaseSteps [of w payload n] adds_wordPressSteps [of w payload n]
  by (auto simp: pipelineSteps_def intro: adds_mono)

subsection \<open>Readiness before the application tier\<close>

lemma gated_low: "list_all (\<lambda>e. \<not> app_workload e) tr \<Longrightarrow> gated tr"
  by (auto simp: gated_def list_all_iff)

lemma gated_append_plain:
  assumes "gated xs" and "list_all (\<lambda>e. \<not> app_workload e) ys"
  shows "gated (xs @ ys)"
  unfolding gated_def
proof (intro allI impI)
  fix i
  assume i: "i < length (xs @ ys)" and app: "app_workload ((xs @ ys) ! i)"
  show "\<exists>j<i. reportsReady ((xs @ ys) ! j)"
  proof (cases "i < length xs")
    case True
    with app have "app_workload (xs ! i)" by (simp add: nth_append)
    with assms(1) True obtain j where "j < i" and "reportsReady (xs ! j)"
      unfolding gated_def by blast
    with True have "reportsReady ((xs @ ys) ! j)" by (simp add: nth_append)
    with \<open>j < i\<close> show ?thesis by blast
  next
    case False
    with i have "(xs @ ys) ! i \<in> set ys" by (simp add: nth_append)
    with assms(2) app show ?thesis by (auto simp: list_all_iff)
  qed
qed

lemma gated_after_ready:
  assumes "gated xs" and "ended_ready xs"
  shows "gated (xs @ ys)"
  unfolding gated_def
proof (intro allI impI)
  fix i
  assume i: "i < length (xs @ ys)" and app: "app_workload ((xs @ ys) ! i)"
  from assms(2) have ne: "xs \<noteq> []" and ready: "reportsReady (last xs)"
    by (simp_all add: ended_ready_def)
  show "\<exists>j<i. reportsReady ((xs @ ys) ! j)"
  proof (cases "i < length xs")
    case True
    with app have "app_workload (xs ! i)" by (simp add: nth_append)
    with assms(1) True obtain j where "j < i" and "reportsReady (xs ! j)"
      unfolding gated_def by blast
    with True have "reportsReady ((xs @ ys) ! j)" by (simp add: nth_append)
    with \<open>j < i\<close> show ?thesis by blast
  next
    case False
    from ne have "length xs - 1 < length xs" by simp
    moreover from ne ready have "reportsReady ((xs @ ys) ! (length xs - 1))"
      by (simp add: nth_append last_conv_nth)
    moreover from False ne have "length xs - 1 < i" by (cases xs) auto
    ultimately show ?thesis by blast
  qed
qed

lemma runSteps_append:
  "runSteps (xs @ ys) tr =
     (case runSteps xs tr of (Some m, tr') \<Rightarrow> (Some m, tr') | (None, tr') \<Rightarrow> runSteps ys tr')"
  by (induction xs arbitrary: tr) (auto split: prod.splits option.splits)

lemma runSteps_last_step:
  "steps \<noteq> [] \<Longrightarrow> runSteps steps tr = (None, tr') \<Longrightarrow>
   \<exists>tr0. fst (last steps) tr0 = (None, tr')"
proof (induction steps arbitrary: tr)
  case Nil
  then show ?case by simp
next
  case (Cons s rest)
  obtain r1 tr1 where one: "fst s tr = (r1, tr1)" by (cases "fst s tr")
  with Cons.prems(2) have none: "r1 = None" and run: "runSteps rest tr1 = (None, tr')"
    by (cases r1; simp)+
  show ?case
  proof (cases "rest = []")
    case True
    with one none run show ?thesis by auto
  next
    case False
    from Cons.IH [OF False run] False show ?thesis by simp
  qed
qed

lemma wait_success_ended_ready:
  assumes "waitForDeploymentReady w ns d t tr = (None, tr')"
  shows "ended_ready tr'"
proof -
  from wait_polls [of w ns d t tr] obtain evs where
    run: "waitForDeploymentReady w ns d t tr
            = (fst (waitForDeploymentReady w ns d t tr), tr @ evs)"
    and polls: "pollsOf w ns d (Suc (t div 5)) tr
                  (fst (waitForDeploymentReady w ns d t tr)) evs"
    by (elim exE conjE) (rule that)
  from run assms have tr': "tr' = tr @ evs" by simp
  from polls assms have "evs \<noteq> []" and "reportsReady (last evs)"
    by (simp_all add: pollsOf_def)
  with tr' show ?thesis by (simp add: ended_ready_def)
qed

lemma database_ended_ready:
  assumes "runSteps (storageAndDatabaseSteps w payload n) tr = (None, tr')"
  shows "ended_ready tr'"
proof -
  have "storageAndDatabaseSteps w payload n \<noteq> []"
    and "fst (last (storageAndDatabaseSteps w payload n))
           = waitForDeploymentReady w (Namespace payload) (dbDeploymentName n) 120"
    by (simp_all add: storageAndDatabaseSteps_def)
  with runSteps_last_step [OF _ assms] obtain tr0 where
    "waitForDeploymentReady w (Namespace payload) (dbDeploymentName n) 120 tr0 = (None, tr')"
    by auto
  then show ?thesis by (rule wait_success_ended_ready)
qed

lemma wordPress_ended_ready:
  assumes "runSteps (wordPressSteps w payload n) tr = (None, tr')"
  shows "ended_ready tr'"
proof -
  have "wordPressSteps w payload n \<noteq> []"
    and "fst (last (wordPressSteps w payload n))
           = waitForDeploymentReady w (Namespace payload) (wpDeploymentName n) 120"
    by (simp_all add: wordPressSteps_def)
  with runSteps_last_step [OF _ assms] obtain tr0 where
    "waitForDeploymentReady w (Namespace payload) (wpDeploymentName n) 120 tr0 = (None, tr')"
    by auto
  then show ?thesis by (rule wait_success_ended_ready)
qed

lemma pipeline_gated:
  assumes "gated tr" and "runSteps (pipelineSteps w payload n) tr = (r, tr')"
  shows "gated tr' \<and> (r = None \<longrightarrow> ended_ready tr')"
proof -
  from adds_runSteps [OF adds_storageAndDatabaseSteps] obtain r1 evs1 where
    db: "runSteps (storageAndDatabaseSteps w payload n) tr = (r1, tr @ evs1)"
    and plain: "list_all (\<lambda>e. phase e = 3 \<and> \<not> app_workload e) evs1"
    by (rule addsE)
  from plain have "list_all (\<lambda>e. \<not> app_workload e) evs1" by (simp add: list_all_iff)
  with assms(1) have g1: "gated (tr @ evs1)" by (rule gated_append_plain)
  show ?thesis
  proof (cases r1)
    case (Some m)
    with db assms(2) have "tr' = tr @ evs1" and "r = Some m"
      by (simp_all add: pipelineSteps_def runSteps_append)
    with g1 show ?thesis by simp
  next
    case None
    with db have ready: "ended_ready (tr @ evs1)" by (simp add: database_ended_ready)
    from adds_runSteps [OF adds_wordPressSteps] obtain r2 evs2 where
      wp: "runSteps (wordPressSteps w payload n) (tr @ evs1) = (r2, (tr @ evs1) @ evs2)"
      by (rule addsE)
    from db None wp assms(2) have tr': "tr' = (tr @ evs1) @ evs2" and r: "r = r2"
      by (simp_all add: pipelineSteps_def runSteps_append)
    from g1 ready have "gated ((tr @ evs1) @ evs2)" by (rule gated_after_ready)
    moreover from wp have "r2 = None \<longrightarrow> ended_ready ((tr @ evs1) @ evs2)"
      by (auto simp: wordPress_ended_ready)
    ultimately show ?thesis using tr' r by simp
  qed
qed

lemma suffixLoop_events:
  "\<exists>r evs. suffixLoop w k acc tr = (r, tr @ evs) \<and> list_all (\<lambda>e. phase e = 0) evs
      \<and> quiet (butlast evs) \<and> ((\<forall>e. r \<noteq> Returns (Inl e)) \<longrightarrow> quiet evs)"
proof (induction k arbitrary: acc tr)
  case 0
  have "suffixLoop w 0 acc tr = (Returns (Inr acc), tr @ [])" by simp
  moreover have "list_all (\<lambda>e. phase e = 0) []" and "quiet (butlast [])" and "quiet []"
    by simp_all
  ultimately show ?case by (intro exI conjI impI)
next
  case (Suc k)
  let ?r = "rand_int w tr (length suffixChars)"
  let ?ev = "RandInt (length suffixChars) ?r"
  have p: "list_all (\<lambda>e. phase e = 0) [?ev]" and b: "quiet (butlast [?ev])" by simp_all
  show ?case
  proof (cases ?r)
    case (Inl e)
    then have "suffixLoop w (Suc k) acc tr = (Returns (Inl e), tr @ [?ev])"
      by (simp add: Let_def)
    moreover have "(\<forall>e'. Returns (Inl e) \<noteq> (Returns (Inl e') :: (error + string) outcome))
        \<longrightarrow> quiet [?ev]" by simp
    ultimately show ?thesis using p b by (intro exI conjI)
  next
    case (Inr v)
    then have ok: "quiet [?ev]" by simp
    show ?thesis
    proof (cases "v < length suffixChars")
      case False
      with Inr have "suffixLoop w (Suc k) acc tr = (Panics, tr @ [?ev])"
        by (simp add: Let_def)
      with p b ok show ?thesis by (intro exI conjI impI)
    next
      case True
      with Inr have unfold: "suffixLoop w (Suc k) acc tr
          = suffixLoop w k (acc @ [suffixChars ! v]) (tr @ [?ev])"
        by (simp add: Let_def)
      from Suc.IH [of "acc @ [suffixChars ! v]" "tr @ [?ev]"] obtain r evs where
        run: "suffixLoop w k (acc @ [suffixChars ! v]) (tr @ [?ev]) = (r, (tr @ [?ev]) @ evs)"
        and pr: "list_all (\<lambda>e. phase e = 0) evs" and br: "quiet (butlast evs)"
        and qr: "(\<forall>e. r \<noteq> Returns (Inl e)) \<longrightarrow> quiet evs"
        by (elim exE conjE) (rule that)
      from unfold run have "suffixLoop w (Suc k) acc tr = (r, tr @ [?ev] @ evs)" by simp
      moreover from p pr have "list_all (\<lambda>e. phase e = 0) ([?ev] @ evs)" by simp
      moreover from ok br have "quiet (butlast ([?ev] @ evs))" by (rule butlast_quiet_append)
      moreover from ok qr have "(\<forall>e. r \<noteq> Returns (Inl e)) \<longrightarrow> quiet ([?ev] @ evs)"
        by simp
      ultimately show ?thesis by (intro exI conjI)
    qed
  qed
qed

lemma app_workload_phase: "app_workload e \<Longrightarrow> phase e = 3"
  by (cases e rule: app_workload.cases) simp_all

lemma low_phase_plain:
  "list_all (\<lambda>e. phase e = k) evs \<Longrightarrow> k \<noteq> 3 \<Longrightarrow> list_all (\<lambda>e. \<not> app_workload e) evs"
  by (auto simp: list_all_iff dest: app_workload_phase)

lemma shapedI:
  assumes "tr = evs0 @ evs1 @ evs2 @ evs3"
    and "list_all (\<lambda>e. phase e = 0) evs0" and "list_all (\<lambda>e. phase e = 1) evs1"
    and "list_all (\<lambda>e. phase e = 2) evs2" and "list_all (\<lambda>e. phase e = 3) evs3"
    and "quiet (butlast tr)"
    and "quiet tr \<or> (\<exists>msg. res = respondFailure 500 msg)"
    and "gated tr"
    and "succeeded res \<longrightarrow> ended_ready tr"
  shows "shaped (res, tr)"
proof -
  from assms(1-5) have
    "\<exists>evs0 evs1 evs2 evs3. tr = evs0 @ evs1 @ evs2 @ evs3
        \<and> list_all (\<lambda>e. phase e = 0) evs0 \<and> list_all (\<lambda>e. phase e = 1) evs1
        \<and> list_all (\<lambda>e. phase e = 2) evs2 \<and> list_all (\<lambda>e. phase e = 3) evs3"
    by (intro exI conjI)
  with assms(6-9) show ?thesis
    unfolding shaped_def by simp
qed

lemma failure_not_succeeded: "succeeded (respondFailure status msg) \<longrightarrow> ended_ready tr"
  by (simp add: respondFailure_def)

lemma provision_panic:
  "generateRandomSuffix w 5 [] = (Panics, tr1) \<Longrightarrow> provision w payload = (Panic, tr1)"
  by (simp add: provision_def)

lemma provision_entropy:
  "generateRandomSuffix w 5 [] = (Returns (Inl e), tr1) \<Longrightarrow>
   provision w payload = (respondFailure 500 ''Could not generate unique suffix'', tr1)"
  by (simp add: provision_def)

lemma provision_client:
  "generateRandomSuffix w 5 [] = (Returns (Inr suffix), tr1) \<Longrightarrow>
   invoke w (InitKubeClient (Kubeconfig payload)) tr1 = (Some e, tr2) \<Longrightarrow>
   provision w payload = (respondFailure 500 ''Could not initialize Kubernetes client'', tr2)"
  by (simp add: provision_def)

lemma provision_namespace:
  "generateRandomSuffix w 5 [] = (Returns (Inr suffix), tr1) \<Longrightarrow>
   invoke w (InitKubeClient (Kubeconfig payload)) tr1 = (None, tr2) \<Longrightarrow>
   ensureNamespace w (Namespace payload) tr2 = (Some nsErr, tr3) \<Longrightarrow>
   provision w payload = (respondFailure 500 (Error nsErr), tr3)"
  by (simp add: provision_def)

lemma provision_step:
  "generateRandomSuffix w 5 [] = (Returns (Inr suffix), tr1) \<Longrightarrow>
   invoke w (InitKubeClient (Kubeconfig payload)) tr1 = (None, tr2) \<Longrightarrow>
   ensureNamespace w (Namespace payload) tr2 = (None, tr3) \<Longrightarrow>
   runSteps (pipelineSteps w payload (deriveNames payload suffix)) tr3 = (Some msg, tr4) \<Longrightarrow>
   provision w payload = (respondFailure 500 msg, tr4)"
  by (simp add: provision_def)

lemma provision_success:
  "generateRandomSuffix w 5 [] = (Returns (Inr suffix), tr1) \<Longrightarrow>
   invoke w (InitKubeClient (Kubeconfig payload)) tr1 = (None, tr2) \<Longrightarrow>
   ensureNamespace w (Namespace payload) tr2 = (None, tr3) \<Longrightarrow>
   runSteps (pipelineSteps w payload (deriveNames payload suffix)) tr3 = (None, tr4) \<Longrightarrow>
   provision w payload =
     (Response 200 \<lparr>Success = True, Message = successMessage,
        Resources = resourceSummary (Namespace payload) (deriveNames payload suffix)\<rparr>, tr4)"
  by (simp add: provision_def)

lemma generateRandomSuffix_events:
  "\<exists>r evs. generateRandomSuffix w n [] = (r, evs) \<and> list_all (\<lambda>e. phase e = 0) evs
      \<and> quiet (butlast evs) \<and> ((\<forall>e. r \<noteq> Returns (Inl e)) \<longrightarrow> quiet evs)"
  using suffixLoop_events [of w n "[]" "[]"] by (simp add: generateRandomSuffix_def)

lemma provision_shaped: "shaped (provision w payload)"
proof -
  from generateRandomSuffix_events [of w 5] obtain r0 evs0 where
    g0: "generateRandomSuffix w 5 [] = (r0, evs0)"
    and p0: "list_all (\<lambda>e. phase e = 0) evs0" and b0: "quiet (butlast evs0)"
    and q0: "(\<forall>e. r0 \<noteq> Returns (Inl e)) \<longrightarrow> quiet evs0"
    by (elim exE conjE) (rule that)
  have nil: "list_all (\<lambda>e. phase e = k) []" for k by simp
  have start: "evs0 = evs0 @ [] @ [] @ []" by simp
  from p0 have "list_all (\<lambda>e. \<not> app_workload e) evs0" by (rule low_phase_plain) simp
  then have gating0: "gated evs0" by (rule gated_low)
  show ?thesis
  proof (cases r0)
    case Panics
    with q0 have calm0: "quiet evs0" by simp
    then have "quiet evs0 \<or> (\<exists>msg. Panic = respondFailure 500 msg)" ..
    moreover have "succeeded Panic \<longrightarrow> ended_ready evs0" by simp
    ultimately have "shaped (Panic, evs0)"
      using start p0 nil nil nil b0 gating0 by (intro shapedI)
    with provision_panic [OF g0 [unfolded Panics]] show ?thesis by simp
  next
    case (Returns x)
    show ?thesis
    proof (cases x)
      case (Inl e)
      have "quiet evs0 \<or> (\<exists>msg. respondFailure 500 ''Could not generate unique suffix''
                  = respondFailure 500 msg)" by blast
      with start p0 nil nil nil b0
      have "shaped (respondFailure 500 ''Could not generate unique suffix'', evs0)"
        using gating0 failure_not_succeeded by (intro shapedI)
      with provision_entropy [OF g0 [unfolded Returns Inl]] show ?thesis by simp
    next
      case (Inr suffix)
      note g0' = g0 [unfolded Returns Inr]
      from Returns Inr q0 have calm0: "quiet evs0" by simp
      let ?c = "InitKubeClient (Kubeconfig payload)"
      let ?e1 = "Call ?c (api w evs0 ?c)"
      let ?tr2 = "evs0 @ [?e1]"
      define r1 where "r1 = api w evs0 ?c"
      have i1: "invoke w ?c evs0 = (r1, ?tr2)"
        by (simp add: invoke_def Let_def r1_def)
      have p1: "list_all (\<lambda>e. phase e = 1) [?e1]" by simp
      have "list_all (\<lambda>e. \<not> app_workload e) [?e1]" by simp
      with gating0 have gating1: "gated ?tr2" by (rule gated_append_plain)
      show ?thesis
      proof (cases r1)
        case (Some e)
        have split: "?tr2 = evs0 @ [?e1] @ [] @ []" by simp
        from calm0 have bl: "quiet (butlast ?tr2)" by simp
        have "quiet ?tr2 \<or> (\<exists>msg. respondFailure 500
                  ''Could not initialize Kubernetes client'' = respondFailure 500 msg)" by blast
        with split p0 p1 nil nil bl
        have "shaped (respondFailure 500 ''Could not initialize Kubernetes client'', ?tr2)"
          using gating1 failure_not_succeeded by (intro shapedI)
        with provision_client [OF g0' i1 [unfolded Some]] show ?thesis by simp
      next
        case None
        note i1' = i1 [unfolded None]
        from None calm0 have calm1: "quiet ?tr2" by (simp add: r1_def)
        from adds_ensureNamespace obtain r2 evs2 where
          n2: "ensureNamespace w (Namespace payload) ?tr2 = (r2, ?tr2 @ evs2)"
          and p2: "list_all (\<lambda>e. phase e = 2) evs2" and b2: "quiet (butlast evs2)"
          and q2: "r2 = None \<longrightarrow> quiet evs2"
          by (rule addsE)
        from calm1 b2 have bl2: "quiet (butlast (?tr2 @ evs2))"
          by (rule butlast_quiet_append)
        from p2 have "list_all (\<lambda>e. \<not> app_workload e) evs2" by (rule low_phase_plain) simp
        with gating1 have gating2: "gated (?tr2 @ evs2)" by (rule gated_append_plain)
        show ?thesis
        proof (cases r2)
          case (Some nsErr)
          have split: "?tr2 @ evs2 = evs0 @ [?e1] @ evs2 @ []" by simp
          have "quiet (?tr2 @ evs2) \<or> (\<exists>msg. respondFailure 500 (Error nsErr)
                    = respondFailure 500 msg)" by blast
          with split p0 p1 p2 nil bl2
          have "shaped (respondFailure 500 (Error nsErr), ?tr2 @ evs2)"
            using gating2 failure_not_succeeded by (intro shapedI)
          with provision_namespace [OF g0' i1' n2 [unfolded Some]] show ?thesis by simp
        next
          case nsOk: None
          note n2' = n2 [unfolded nsOk]
          from q2 nsOk have "quiet evs2" by simp
          with calm1 have calm2: "quiet (?tr2 @ evs2)" by simp
          let ?n = "deriveNames payload suffix"
          let ?tr3 = "?tr2 @ evs2"
          from adds_runSteps [OF adds_pipelineSteps] obtain r3 evs3 where
            s3: "runSteps (pipelineSteps w payload ?n) ?tr3 = (r3, ?tr3 @ evs3)"
            and p3: "list_all (\<lambda>e. phase e = 3) evs3" and b3: "quiet (butlast evs3)"
            and q3: "r3 = None \<longrightarrow> quiet evs3"
            by (rule addsE)
          from calm2 b3 have bl3: "quiet (butlast (?tr3 @ evs3))"
            by (rule butlast_quiet_append)
          have split3: "?tr3 @ evs3 = evs0 @ [?e1] @ evs2 @ evs3" by simp
          note gating3 = pipeline_gated [OF gating2 s3, THEN conjunct1]
          note ready3 = pipeline_gated [OF gating2 s3, THEN conjunct2]
          show ?thesis
          proof (cases r3)
            case (Some msg)
            have "quiet (?tr3 @ evs3) \<or> (\<exists>m. respondFailure 500 msg = respondFailure 500 m)"
              by blast
            with split3 p0 p1 p2 p3 bl3
            have "shaped (respondFailure 500 msg, ?tr3 @ evs3)"
              using gating3 failure_not_succeeded by (intro shapedI)
            with provision_step [OF g0' i1' n2' s3 [unfolded Some]] show ?thesis by simp
          next
            case stepsOk: None
            from q3 stepsOk have "quiet evs3" by simp
            with calm2 have calm3: "quiet (?tr3 @ evs3)" by simp
            let ?ok = "Response 200 \<lparr>Success = True, Message = successMessage,
                Resources = resourceSummary (Namespace payload) ?n\<rparr>"
            from calm3 have "quiet (?tr3 @ evs3) \<or> (\<exists>m. ?ok = respondFailure 500 m)" ..
            moreover from ready3 stepsOk have "succeeded ?ok \<longrightarrow> ended_ready (?tr3 @ evs3)"
              by simp
            ultimately have "shaped (?ok, ?tr3 @ evs3)"
              using split3 p0 p1 p2 p3 bl3 gating3 by (intro shapedI)
            with provision_success [OF g0' i1' n2' s3 [unfolded stepsOk]] show ?thesis by simp
          qed
        qed
      qed
    qed
  qed
qed

lemma rejected_not_succeeded:
  "acceptRequest r = Inl response \<Longrightarrow> \<not> succeeded response"
  by (auto simp: acceptRequest_def respondFailure_def Let_def split: if_splits sum.splits)

lemma handler_shaped: "shaped (handleCreateWordPress w r)"
proof (cases "acceptRequest r")
  case (Inl response)
  then have "succeeded response \<longrightarrow> ended_ready []"
    by (simp add: rejected_not_succeeded)
  moreover have "gated []" by (simp add: gated_def)
  ultimately have "shaped (response, [])"
    by (intro shapedI [of _ "[]" "[]" "[]" "[]"]) simp_all
  with Inl show ?thesis by (simp add: handleCreateWordPress_def)
next
  case (Inr payload)
  with provision_shaped [of w payload] show ?thesis
    by (simp add: handleCreateWordPress_def)
qed

text \<open>
  C4. Whatever the cluster and the entropy source answer, a failing step of the pipeline
  ends the run with a failure. When a call of a step fails (any creation call, for one
  the creation of the volume claim of the database tier, or a parse of a capacity, a
  read of entropy, the set-up of the client), that call is the last event of the run, so
  no creation call follows it, and the handler answers with a failure response of status
  500. When a wait fails there is no ready poll: the workload of the application tier
  and its endpoint are created only after a poll that reported a ready replica, and the
  handler answers with success only when the last event of the run is such a poll.
\<close>

theorem failed_step_ends_the_run:
  assumes "handleCreateWordPress w r = (response, tr)"
  shows "(\<forall>i<length tr. call_failed (tr ! i) \<longrightarrow>
            Suc i = length tr \<and> (\<exists>msg. response = respondFailure 500 msg))
       \<and> (\<forall>i<length tr. app_workload (tr ! i) \<longrightarrow> (\<exists>j<i. reportsReady (tr ! j)))
       \<and> (succeeded response \<longrightarrow> tr \<noteq> [] \<and> reportsReady (last tr))"
proof -
  from handler_shaped [of w r] assms have
    before: "quiet (butlast tr)"
    and after: "quiet tr \<or> (\<exists>msg. response = respondFailure 500 msg)"
    and gating: "gated tr"
    and ready: "succeeded response \<longrightarrow> ended_ready tr"
    by (simp_all add: shaped_def)
  have "Suc i = length tr \<and> (\<exists>msg. response = respondFailure 500 msg)"
    if lt: "i < length tr" and failed: "call_failed (tr ! i)" for i
  proof -
    from lt failed have noisy: "\<not> quiet tr"
      by (auto simp: quiet_def list_all_iff)
    have "Suc i = length tr"
    proof (rule ccontr)
      assume "Suc i \<noteq> length tr"
      with lt have short: "i < length (butlast tr)" by simp
      then have "butlast tr ! i \<in> set (butlast tr)" by (rule nth_mem)
      with short have "tr ! i \<in> set (butlast tr)"
        by (simp add: nth_butlast)
      with before failed show False
        by (auto simp: quiet_def list_all_iff)
    qed
    with after noisy show ?thesis by blast
  qed
  moreover from gating have
    "\<forall>i<length tr. app_workload (tr ! i) \<longrightarrow> (\<exists>j<i. reportsReady (tr ! j))"
    by (simp only: gated_def)
  moreover from ready have "succeeded response \<longrightarrow> tr \<noteq> [] \<and> reportsReady (last tr)"
    by (simp only: ended_ready_def)
  ultimately show ?thesis by blast
qed

lemma claim_refused_run:
  "handleCreateWordPress claimRefusedWorld demoRequest =
     (respondFailure 500
        ''Failed to create MySQL PVC: unable to create PVC site-aaaaa-db-pvc: forbidden'',
      replicate 5 (RandInt 36 (Inr 0)) @
      [Call (InitKubeClient '''') None,
       Call (NamespacesGet ''demo'') None,
       Call (ParseQuantity 5) None,
       Call (PersistentVolumesCreate ''site-aaaaa-db-pv''
               ''/mnt/data/demo/site-aaaaa-db-pv_data'' 5) None,
       Call (ParseQuantity 5) None,
       Call (PersistentVolumeClaimsCreate ''demo'' ''site-aaaaa-db-pvc''
               ''site-aaaaa-db-pv'' 5) (Some (Other ''forbidden''))])"
  by code_simp

lemma calm_run_facts:
  "succeeded (fst (handleCreateWordPress calmWorld demoRequest))
   \<and> 21 < length (snd (handleCreateWordPress calmWorld demoRequest))
   \<and> app_workload (snd (handleCreateWordPress calmWorld demoRequest) ! 21)"
  by code_simp

text \<open>
  Two scenarios of C4. The cluster refuses the volume claim of the database tier: the
  refused call is the eleventh and last event of the run. On a calm cluster the request
  succeeds: its last event is a ready poll, and the creation of the WordPress deployment,
  the event at index 21, comes after a ready poll.
\<close>

theorem failed_step_ends_the_run_witness:
  "10 < length (snd (handleCreateWordPress claimRefusedWorld demoRequest))
   \<and> call_failed (snd (handleCreateWordPress claimRefusedWorld demoRequest) ! 10)
   \<and> Suc 10 = length (snd (handleCreateWordPress claimRefusedWorld demoRequest))
   \<and> (\<exists>msg. fst (handleCreateWordPress claimRefusedWorld demoRequest)
                = respondFailure 500 msg)
   \<and> succeeded (fst (handleCreateWordPress calmWorld demoRequest))
   \<and> reportsReady (last (snd (handleCreateWordPress calmWorld demoRequest)))
   \<and> app_workload (snd (handleCreateWordPress calmWorld demoRequest) ! 21)
   \<and> (\<exists>j<21. reportsReady (snd (handleCreateWordPress calmWorld demoRequest) ! j))"
proof -
  let ?out = "handleCreateWordPress claimRefusedWorld demoRequest"
  have run: "?out = (fst ?out, snd ?out)" by simp
  have lt: "10 < length (snd ?out)" by (simp add: claim_refused_run)
  have failed: "call_failed (snd ?out ! 10)"
    by (simp add: claim_refused_run nth_append)
  note refused =
    failed_step_ends_the_run [OF run, THEN conjunct1, rule_format, OF lt failed]
  let ?calm = "handleCreateWordPress calmWorld demoRequest"
  have calm: "?calm = (fst ?calm, snd ?calm)" by simp
  note ok = calm_run_facts [THEN conjunct1]
  note at = calm_run_facts [THEN conjunct2, THEN conjunct1]
  note app = calm_run_facts [THEN conjunct2, THEN conjunct2]
  note gating =
    failed_step_ends_the_run [OF calm, THEN conjunct2, THEN conjunct1, rule_format, OF at app]
  note ready =
    failed_step_ends_the_run [OF calm, THEN conjunct2, THEN conjunct2, rule_format, OF ok,
      THEN conjunct2]
  from refused lt failed ok ready app gating show ?thesis
    by (intro conjI) (elim conjE, assumption)+
qed

subsection \<open>The suffix, the namespace and the derived names\<close>

lemma suffixLoop_draws:
  "suffixLoop w k acc tr = (Returns (Inr s), tr @ evs) \<Longrightarrow>
   length evs = k \<and> list_all drawn evs \<and> s = acc @ suffixOf evs"
proof (induction k arbitrary: acc tr evs)
  case 0
  then show ?case by simp
next
  case (Suc k)
  let ?r = "rand_int w tr (length suffixChars)"
  let ?ev = "RandInt (length suffixChars) ?r"
  show ?case
  proof (cases ?r)
    case (Inl e)
    with Suc.prems show ?thesis by (simp add: Let_def)
  next
    case (Inr v)
    show ?thesis
    proof (cases "v < length suffixChars")
      case False
      with Inr Suc.prems show ?thesis by (simp add: Let_def)
    next
      case True
      with Inr Suc.prems have run:
        "suffixLoop w k (acc @ [suffixChars ! v]) (tr @ [?ev]) = (Returns (Inr s), tr @ evs)"
        by (simp add: Let_def)
      from suffixLoop_events [of w k "acc @ [suffixChars ! v]" "tr @ [?ev]"]
      obtain r rest where "suffixLoop w k (acc @ [suffixChars ! v]) (tr @ [?ev])
          = (r, (tr @ [?ev]) @ rest)"
        by (elim exE conjE) (rule that)
      with run have evs: "evs = ?ev # rest" by simp
      with run have "suffixLoop w k (acc @ [suffixChars ! v]) (tr @ [?ev])
          = (Returns (Inr s), (tr @ [?ev]) @ rest)" by simp
      from Suc.IH [OF this] have "length rest = k" and "list_all drawn rest"
        and "s = (acc @ [suffixChars ! v]) @ suffixOf rest"
        by simp_all
      with evs Inr True show ?thesis by simp
    qed
  qed
qed

lemma suffix_drawn:
  assumes "generateRandomSuffix w 5 [] = (Returns (Inr suffix), evs)"
  shows "length evs = 5 \<and> list_all drawn evs \<and> suffix = suffixOf evs"
  using suffixLoop_draws [of w 5 "[]" "[]" suffix evs] assms
  by (simp add: generateRandomSuffix_def)

lemma ensureNamespace_ensured:
  "ensureNamespace w ns tr = (None, tr @ evs) \<Longrightarrow>
   evs = [Call (NamespacesGet ns) None]
   \<or> (\<exists>e. evs = [Call (NamespacesGet ns) (Some e), Call (NamespacesCreate ns) None])"
  by (auto simp: ensureNamespace_def invoke_def Let_def split: option.splits)

lemma orderedI:
  assumes "tr = draws @ client @ nsev @ named"
    and "list_all (\<lambda>e. phase e = 0) draws" and "list_all (\<lambda>e. phase e = 1) client"
    and "list_all (\<lambda>e. phase e = 2) nsev" and "list_all (\<lambda>e. phase e = 3) named"
    and "client @ nsev @ named \<noteq> [] \<longrightarrow> length draws = 5 \<and> list_all drawn draws"
    and "nsev @ named \<noteq> [] \<longrightarrow> client = [Call (InitKubeClient (Kubeconfig p)) None]"
    and "named \<noteq> [] \<longrightarrow>
           (nsev = [Call (NamespacesGet (Namespace p)) None]
            \<or> (\<exists>e. nsev = [Call (NamespacesGet (Namespace p)) (Some e),
                           Call (NamespacesCreate (Namespace p)) None]))
           \<and> (\<exists>msg. runSteps (pipelineSteps w p (deriveNames p (suffixOf draws)))
                      (draws @ client @ nsev) = (msg, tr))"
  shows "ordered w p tr"
  unfolding ordered_def using assms by (intro exI conjI)

lemma provision_ordered: "ordered w p (snd (provision w p))"
proof -
  from generateRandomSuffix_events [of w 5] obtain r0 evs0 where
    g0: "generateRandomSuffix w 5 [] = (r0, evs0)"
    and p0: "list_all (\<lambda>e. phase e = 0) evs0"
    by (elim exE conjE) (rule that)
  show ?thesis
  proof (cases r0)
    case Panics
    from provision_panic [OF g0 [unfolded Panics]]
    have "snd (provision w p) = evs0 @ [] @ [] @ []" by simp
    with p0 show ?thesis by (intro orderedI [of _ evs0 "[]" "[]" "[]"]) simp_all
  next
    case (Returns x)
    show ?thesis
    proof (cases x)
      case (Inl e)
      from provision_entropy [OF g0 [unfolded Returns Inl]]
      have "snd (provision w p) = evs0 @ [] @ [] @ []" by simp
      with p0 show ?thesis by (intro orderedI [of _ evs0 "[]" "[]" "[]"]) simp_all
    next
      case (Inr suffix)
      note g0' = g0 [unfolded Returns Inr]
      from suffix_drawn [OF g0'] have five: "length evs0 = 5"
        and draws: "list_all drawn evs0" and suffix: "suffix = suffixOf evs0"
        by simp_all
      let ?c = "InitKubeClient (Kubeconfig p)"
      define r1 where "r1 = api w evs0 ?c"
      let ?e1 = "Call ?c r1"
      let ?tr2 = "evs0 @ [?e1]"
      have i1: "invoke w ?c evs0 = (r1, ?tr2)"
        by (simp add: invoke_def Let_def r1_def)
      show ?thesis
      proof (cases r1)
        case (Some e)
        from provision_client [OF g0' i1 [unfolded Some]]
        have "snd (provision w p) = evs0 @ [Call ?c (Some e)] @ [] @ []" by simp
        with p0 five draws show ?thesis
          by (intro orderedI [of _ evs0 "[Call ?c (Some e)]" "[]" "[]"]) simp_all
      next
        case None
        note i1' = i1 [unfolded None]
        let ?ready = "Call ?c None"
        let ?tr2 = "evs0 @ [?ready]"
        from adds_ensureNamespace obtain r2 evs2 where
          n2: "ensureNamespace w (Namespace p) ?tr2 = (r2, ?tr2 @ evs2)"
          and p2: "list_all (\<lambda>e. phase e = 2) evs2"
          by (rule addsE)
        show ?thesis
        proof (cases r2)
          case (Some nsErr)
          from provision_namespace [OF g0' i1' n2 [unfolded Some]]
          have "snd (provision w p) = evs0 @ [?ready] @ evs2 @ []" by simp
          with p0 p2 five draws show ?thesis
            by (intro orderedI [of _ evs0 "[?ready]" evs2 "[]"]) simp_all
        next
          case nsOk: None
          note n2' = n2 [unfolded nsOk]
          note ensured = ensureNamespace_ensured [OF n2']
          let ?n = "deriveNames p suffix"
          let ?tr3 = "?tr2 @ evs2"
          from adds_runSteps [OF adds_pipelineSteps] obtain r3 evs3 where
            s3: "runSteps (pipelineSteps w p ?n) ?tr3 = (r3, ?tr3 @ evs3)"
            and p3: "list_all (\<lambda>e. phase e = 3) evs3"
            by (rule addsE)
          have tr: "snd (provision w p) = evs0 @ [?ready] @ evs2 @ evs3"
          proof (cases r3)
            case (Some msg)
            from provision_step [OF g0' i1' n2' s3 [unfolded Some]] show ?thesis by simp
          next
            case None
            from provision_success [OF g0' i1' n2' s3 [unfolded None]] show ?thesis by simp
          qed
          from s3 suffix have
            "runSteps (pipelineSteps w p (deriveNames p (suffixOf evs0)))
               (evs0 @ [?ready] @ evs2) = (r3, evs0 @ [?ready] @ evs2 @ evs3)"
            by simp
          with tr have "\<exists>msg. runSteps (pipelineSteps w p (deriveNames p (suffixOf evs0)))
               (evs0 @ [?ready] @ evs2) = (msg, snd (provision w p))"
            by simp
          with ensured tr p0 p2 p3 five draws show ?thesis
            by (intro orderedI [of _ evs0 "[?ready]" evs2 evs3]) simp_all
        qed
      qed
    qed
  qed
qed

lemma accepted_payload:
  assumes "acceptRequest r = Inr p"
  shows "\<exists>payload. Body r = Inr payload \<and> Namespace p = Namespace payload"
  using assms
  by (auto simp: acceptRequest_def Let_def split: if_splits sum.splits)

text \<open>
  C6, as the code has it. Every run of the handler consists of four parts in this order:
  the draws for the uniqueness suffix, the set-up of the client, the calls on the
  namespace, and the calls of the steps that work with the derived names. Nothing
  follows the draws unless they are five draws inside the alphabet, that is, unless the
  whole suffix has been generated; no call on the namespace is made unless the set-up of
  the client succeeded; and no step that works with a derived name starts unless the
  namespace of the request has been ensured, by a lookup that found it or by a lookup
  that failed and a creation that succeeded. The calls of the last part are those of
  the steps of the pipeline with the names derived from the suffix that the draws
  spell. So the namespace is ensured before any derived name is used, but after the
  suffix is generated.
\<close>

theorem suffix_then_namespace_then_names:
  assumes "handleCreateWordPress w r = (response, tr)"
  shows "\<exists>draws client nsev named.
           tr = draws @ client @ nsev @ named
         \<and> list_all (\<lambda>e. phase e = 0) draws \<and> list_all (\<lambda>e. phase e = 1) client
         \<and> list_all (\<lambda>e. phase e = 2) nsev \<and> list_all (\<lambda>e. phase e = 3) named
         \<and> (client @ nsev @ named \<noteq> [] \<longrightarrow> length draws = 5 \<and> list_all drawn draws)
         \<and> (nsev @ named \<noteq> [] \<longrightarrow> (\<exists>k. client = [Call (InitKubeClient k) None]))
         \<and> (named \<noteq> [] \<longrightarrow>
              (\<exists>payload p. Body r = Inr payload \<and> acceptRequest r = Inr p
                 \<and> (nsev = [Call (NamespacesGet (Namespace payload)) None]
                    \<or> (\<exists>e. nsev = [Call (NamespacesGet (Namespace payload)) (Some e),
                                   Call (NamespacesCreate (Namespace payload)) None]))
                 \<and> (\<exists>msg. runSteps (pipelineSteps w p (deriveNames p (suffixOf draws)))
                            (draws @ client @ nsev) = (msg, tr))))"
proof (cases "acceptRequest r")
  case (Inl rejected)
  with assms have "tr = [] @ [] @ [] @ []" by (simp add: handleCreateWordPress_def)
  then show ?thesis by (intro exI [of _ "[]"] conjI) simp_all
next
  case (Inr p)
  with assms have tr: "tr = snd (provision w p)" by (simp add: handleCreateWordPress_def)
  from accepted_payload [OF Inr] obtain payload where
    body: "Body r = Inr payload" and ns: "Namespace p = Namespace payload"
    by (elim exE conjE) (rule that)
  from provision_ordered [of w p] obtain draws client nsev named where
    split: "tr = draws @ client @ nsev @ named"
    and p0: "list_all (\<lambda>e. phase e = 0) draws" and p1: "list_all (\<lambda>e. phase e = 1) client"
    and p2: "list_all (\<lambda>e. phase e = 2) nsev" and p3: "list_all (\<lambda>e. phase e = 3) named"
    and suffix: "client @ nsev @ named \<noteq> [] \<longrightarrow> length draws = 5 \<and> list_all drawn draws"
    and ready: "nsev @ named \<noteq> [] \<longrightarrow> client = [Call (InitKubeClient (Kubeconfig p)) None]"
    and names: "named \<noteq> [] \<longrightarrow>
           (nsev = [Call (NamespacesGet (Namespace p)) None]
            \<or> (\<exists>e. nsev = [Call (NamespacesGet (Namespace p)) (Some e),
                           Call (NamespacesCreate (Namespace p)) None]))
           \<and> (\<exists>msg. runSteps (pipelineSteps w p (deriveNames p (suffixOf draws)))
                      (draws @ client @ nsev) = (msg, tr))"
    unfolding ordered_def tr [symmetric] by (elim exE conjE) (rule that)
  from ready have ready': "nsev @ named \<noteq> [] \<longrightarrow> (\<exists>k. client = [Call (InitKubeClient k) None])"
    by simp
  from names body Inr have names': "named \<noteq> [] \<longrightarrow>
      (\<exists>payload p. Body r = Inr payload \<and> acceptRequest r = Inr p
         \<and> (nsev = [Call (NamespacesGet (Namespace payload)) None]
            \<or> (\<exists>e. nsev = [Call (NamespacesGet (Namespace payload)) (Some e),
                           Call (NamespacesCreate (Namespace payload)) None]))
         \<and> (\<exists>msg. runSteps (pipelineSteps w p (deriveNames p (suffixOf draws)))
                    (draws @ client @ nsev) = (msg, tr)))"
    unfolding ns by (intro impI exI [of _ payload] exI [of _ p] conjI) simp_all
  from split p0 p1 p2 p3 suffix ready' names' show ?thesis by (intro exI conjI)
qed

lemma calm_run_order:
  "snd (handleCreateWordPress calmWorld demoRequest) \<noteq> []
   \<and> phase (last (snd (handleCreateWordPress calmWorld demoRequest))) = 3
   \<and> snd (handleCreateWordPress calmWorld demoRequest) ! 6 = Call (NamespacesGet ''demo'') None
   \<and> Body demoRequest = Inr demoPayload \<and> Namespace demoPayload = ''demo''"
  by code_simp

text \<open>
  A run of C6: the request \<^verbatim>\<open>{"namespace": "demo", "deployment_name": "site"}\<close> on a calm
  cluster. Its trace has five draws inside the alphabet, then the set-up of the client,
  then the one lookup of the namespace \<open>demo\<close>, which finds it, and then the calls with
  the derived names.
\<close>

theorem suffix_then_namespace_then_names_witness:
  "\<exists>draws client nsev named.
     snd (handleCreateWordPress calmWorld demoRequest) = draws @ client @ nsev @ named
     \<and> length draws = 5 \<and> list_all drawn draws
     \<and> (\<exists>k. client = [Call (InitKubeClient k) None])
     \<and> nsev = [Call (NamespacesGet ''demo'') None]
     \<and> named \<noteq> []"
proof -
  let ?out = "handleCreateWordPress calmWorld demoRequest"
  have run: "?out = (fst ?out, snd ?out)" by simp
  note ne = calm_run_order [THEN conjunct1]
  note last3 = calm_run_order [THEN conjunct2, THEN conjunct1]
  note at6 = calm_run_order [THEN conjunct2, THEN conjunct2, THEN conjunct1]
  note body = calm_run_order [THEN conjunct2, THEN conjunct2, THEN conjunct2, THEN conjunct1]
  note demo = calm_run_order [THEN conjunct2, THEN conjunct2, THEN conjunct2, THEN conjunct2]
  from suffix_then_namespace_then_names [OF run] obtain draws client nsev named where
    split: "snd ?out = draws @ client @ nsev @ named"
    and p0: "list_all (\<lambda>e. phase e = 0) draws" and p1: "list_all (\<lambda>e. phase e = 1) client"
    and p2: "list_all (\<lambda>e. phase e = 2) nsev" and p3: "list_all (\<lambda>e. phase e = 3) named"
    and suffix: "client @ nsev @ named \<noteq> [] \<longrightarrow> length draws = 5 \<and> list_all drawn draws"
    and ready: "nsev @ named \<noteq> [] \<longrightarrow> (\<exists>k. client = [Call (InitKubeClient k) None])"
    and names: "named \<noteq> [] \<longrightarrow>
      (\<exists>payload p. Body demoRequest = Inr payload \<and> acceptRequest demoRequest = Inr p
         \<and> (nsev = [Call (NamespacesGet (Namespace payload)) None]
            \<or> (\<exists>e. nsev = [Call (NamespacesGet (Namespace payload)) (Some e),
                           Call (NamespacesCreate (Namespace payload)) None]))
         \<and> (\<exists>msg. runSteps (pipelineSteps calmWorld p (deriveNames p (suffixOf draws)))
                    (draws @ client @ nsev) = (msg, snd ?out)))"
    by (elim exE conjE) (rule that)
  have named: "named \<noteq> []"
  proof
    assume "named = []"
    with split ne have "last (snd ?out) \<in> set draws \<union> set client \<union> set nsev"
      by (metis append_Nil2 last_in_set set_append Un_assoc)
    with p0 p1 p2 have "phase (last (snd ?out)) < 3"
      by (auto simp: list_all_iff)
    with last3 show False by simp
  qed
  with suffix have five: "length draws = 5" and draws: "list_all drawn draws" by simp_all
  from named ready obtain k where client: "client = [Call (InitKubeClient k) None]"
    by auto
  from named names body demo have choice:
    "nsev = [Call (NamespacesGet ''demo'') None]
     \<or> (\<exists>e. nsev = [Call (NamespacesGet ''demo'') (Some e),
                    Call (NamespacesCreate ''demo'') None])"
    by auto
  from split five client have "snd ?out ! 6 = (nsev @ named) ! 0"
    by (simp add: nth_append)
  with at6 have "(nsev @ named) ! 0 = Call (NamespacesGet ''demo'') None" by simp
  with choice have found: "nsev = [Call (NamespacesGet ''demo'') None]" by auto
  from split five draws client found named show ?thesis by (intro exI conjI)
qed

text \<open>
  C6 as stated fails: in the run of that request on a calm cluster the five draws for
  the suffix come before the lookup of the namespace.
\<close>

theorem namespace_before_suffix_counterexample:
  "\<not> namespace_before_suffix (snd (handleCreateWordPress calmWorld demoRequest))"
  by code_simp

section \<open>The host of the database in the credential store\<close>

text \<open>
  C1, evaluated on the code. The request \<^verbatim>\<open>{"namespace": "demo", "deployment_name": "site"}\<close>
  on a calm cluster, with the suffix \<open>aaaaa\<close>, succeeds. The database service it creates is
  named \<open>site-aaaaa-db-svc\<close>; the connection host it stores is
  \<open>site-aaaaa-db-svc-db-svc\<close>, since the handler passes the name of the service where
  \<^verbatim>\<open>createWPMySQLSecret\<close> expects the prefix and appends \<open>-db-svc\<close> once more.
\<close>

theorem secret_host_is_not_the_service:
  "succeeded (fst (handleCreateWordPress calmWorld demoRequest))
   \<and> dbHosts (snd (handleCreateWordPress calmWorld demoRequest))
       = [Some ''site-aaaaa-db-svc-db-svc'']
   \<and> mysqlServices (snd (handleCreateWordPress calmWorld demoRequest))
       = [''site-aaaaa-db-svc'']"
  by code_simp

text \<open>The first revision of the handler passes the prefix, and the host it stores is the
  name of the service.\<close>

lemma rev1_secret_host_is_the_service:
  "succeeded (fst (handleCreateWordPress_rev1 calmWorld demoRequest))
   \<and> dbHosts (snd (handleCreateWordPress_rev1 calmWorld demoRequest)) = [Some ''site-db-svc'']
   \<and> mysqlServices (snd (handleCreateWordPress_rev1 calmWorld demoRequest)) = [''site-db-svc'']"
  by code_simp

section \<open>Validation of the request\<close>

text \<open>Blank names: spaces of ASCII around a name are removed, a name that is one
  no-break space (U+00A0) is blank, and a lone byte \<open>A0\<close> is not white space.\<close>

lemma TrimSpace_samples:
  "TrimSpace ''  wp '' = ''wp''
   \<and> TrimSpace [CHR 0xC2, CHR 0xA0] = []
   \<and> TrimSpace [CHR 0x20, CHR 0xE2, CHR 0x80, CHR 0x83, CHR ''w'', CHR 0xE3, CHR 0x80, CHR 0x80]
       = ''w''
   \<and> TrimSpace [CHR 0xA0] = [CHR 0xA0]"
  by code_simp

lemma provision_not_rejected: "fst (provision w payload) \<noteq> respondFailure 400 m"
  by (auto simp: provision_def respondFailure_def Let_def
      split: prod.splits outcome.splits sum.splits option.splits)

text \<open>
  C8, for the revision of the handler that draws a suffix (main.go 352-617). A POST request
  with a decodable body, a non-empty namespace and a missing or empty
  \<^verbatim>\<open>deployment_name\<close> passes validation: the handler runs the pipeline on a payload whose
  naming prefix is \<open>wp\<close>, from which every resource name is then built, and its answer
  is not a response of status 400.
\<close>

theorem missing_deployment_name_defaults_to_wp:
  assumes "Method r = ''POST''" and "Body r = Inr payload"
    and "Namespace payload \<noteq> ''''" and "DeploymentName payload = ''''"
  shows "\<exists>p. acceptRequest r = Inr p
            \<and> DeploymentName p = ''wp'' \<and> Namespace p = Namespace payload
            \<and> handleCreateWordPress w r = provision w p
            \<and> (\<forall>m. fst (handleCreateWordPress w r) \<noteq> respondFailure 400 m)"
proof -
  let ?p1 = "payload\<lparr>DeploymentName := ''wp''\<rparr>"
  let ?p2 = "if PersistenceDiskGB ?p1 \<le> 0 then ?p1\<lparr>PersistenceDiskGB := 5\<rparr> else ?p1"
  let ?p3 = "if DatabaseDiskGB ?p2 \<le> 0 then ?p2\<lparr>DatabaseDiskGB := 5\<rparr> else ?p2"
  from assms have accepted: "acceptRequest r = Inr ?p3"
    by (simp add: acceptRequest_def TrimSpace_def Let_def)
  then have run: "handleCreateWordPress w r = provision w ?p3"
    by (simp add: handleCreateWordPress_def)
  have "DeploymentName ?p3 = ''wp''" and "Namespace ?p3 = Namespace payload" by simp_all
  moreover from run have "\<forall>m. fst (handleCreateWordPress w r) \<noteq> respondFailure 400 m"
    by (simp only: provision_not_rejected) simp
  ultimately show ?thesis using accepted run by (intro exI [of _ ?p3] conjI)
qed

text \<open>
  C8 as stated fails on the first revision of the handler (main.go 45-297), whose
  validation at lines 77-84 rejects the request \<^verbatim>\<open>{"namespace": "demo"}\<close> with status 400
  before any call to the cluster.
\<close>

theorem missing_deployment_name_counterexample:
  "handleCreateWordPress_rev1 calmWorld unnamedRequest
     = (respondFailure 400 ''deployment_name is required'', [])"
  by code_simp

theorem missing_deployment_name_defaults_to_wp_witness:
  "Method unnamedRequest = ''POST''
   \<and> Body unnamedRequest = Inr (demoPayload\<lparr>DeploymentName := ''''\<rparr>)
   \<and> Namespace (demoPayload\<lparr>DeploymentName := ''''\<rparr>) \<noteq> ''''
   \<and> DeploymentName (demoPayload\<lparr>DeploymentName := ''''\<rparr>) = ''''
   \<and> (\<exists>p. acceptRequest unnamedRequest = Inr p
         \<and> DeploymentName p = ''wp''
         \<and> Namespace p = Namespace (demoPayload\<lparr>DeploymentName := ''''\<rparr>)
         \<and> handleCreateWordPress calmWorld unnamedRequest = provision calmWorld p
         \<and> (\<forall>m. fst (handleCreateWordPress calmWorld unnamedRequest)
                  \<noteq> respondFailure 400 m))"
proof -
  have post: "Method unnamedRequest = ''POST''"
    and body: "Body unnamedRequest = Inr (demoPayload\<lparr>DeploymentName := ''''\<rparr>)"
    and ns: "Namespace (demoPayload\<lparr>DeploymentName := ''''\<rparr>) \<noteq> ''''"
    and unnamed: "DeploymentName (demoPayload\<lparr>DeploymentName := ''''\<rparr>) = ''''"
    by (simp_all add: unnamedRequest_def demoPayload_def)
  from missing_deployment_name_defaults_to_wp [OF post body ns unnamed, of calmWorld]
    post body ns unnamed
  show ?thesis by (intro conjI)
qed

end
